theory Spec2Isabelle
  imports Complex_Main "HOL-Library.Multiset" "HOL-Library.Code_Target_Nat" "HOL-Library.Log_Nat"
begin

section \<open>The memory tracker of cypress-memory-tracker.js\<close>

text \<open>
  A shallow embedding of the class \<^verbatim>\<open>MemoryTracker\<close>
  (\<^verbatim>\<open>dist/cypress-memory-tracker.js\<close>).

  Conventions of the model:
  \<^item> a byte count of the data file is a \<open>nat\<close> and a time in milliseconds an \<open>int\<close>;
    the numbers of the statistics are doubles, held as the \<open>rat\<close> that is their value,
    and every operation on them rounds to the nearest double. The exponent of a double
    has no bounds in the model: infinities, \<^verbatim>\<open>NaN\<close> and subnormal numbers are left out.
    \<^verbatim>\<open>Math.round\<close> rounds half up, which is \<open>round\<close> of the library
    (\<open>round x = \<lfloor>x + 1/2\<rfloor>\<close>);
  \<^item> a string is the list of its code units;
  \<^item> a property that is absent, \<^verbatim>\<open>undefined\<close> or \<^verbatim>\<open>null\<close> is \<open>None\<close>;
  \<^item> a plain object used as a dictionary is an association list in the order
    \<^verbatim>\<open>Object.keys\<close> enumerates it, with pairwise different keys;
  \<^item> the data file is a value of type \<open>snapshot option\<close>: \<^verbatim>\<open>JSON.stringify\<close> followed
    by \<^verbatim>\<open>JSON.parse\<close> gives back a value-equal copy with the same key order, so the
    file holds values and no references. \<open>None\<close> is a file that is missing or cannot be
    parsed;
  \<^item> the records of the snapshot have the fields that this class writes; the guards of
    the aggregation for a missing \<^verbatim>\<open>tests\<close> or \<^verbatim>\<open>samples\<close> have no case of their own;
  \<^item> the debug log and the colours of chalk are left out.
\<close>

subsection \<open>Numbers\<close>

text \<open>
  A JavaScript number is an IEEE 754 double. The model holds the value of a double as a
  rational number; an arithmetic operation returns its exact result rounded to the
  nearest double, and of two doubles that are equally near the one with the even
  significand: \<open>binary64\<close> of the exact result.
\<close>

text \<open>The integer nearest to \<open>x\<close>; half-way between two integers, the even one.\<close>

definition round_even :: "rat \<Rightarrow> int" where
  "round_even x =
     (let f = \<lfloor>x\<rfloor>; r = x - of_int f
      in if r < 1 / 2 then f else if 1 / 2 < r then f + 1 else if even f then f else f + 1)"

text \<open>
  The binary exponent of a positive number, \<open>2 ^ e \<le> x < 2 ^ (e + 1)\<close>: the difference of the
  bit lengths of numerator and denominator, or one less.
\<close>

definition exponent :: "rat \<Rightarrow> int" where
  "exponent x =
     (let (p, q) = quotient_of x; d = bitlen p - bitlen q
      in if 2 powi d \<le> x then d else d - 1)"

text \<open>The nearest number with a significand of 53 bits.\<close>

definition binary64 :: "rat \<Rightarrow> rat" where
  "binary64 x =
     (if x = 0 then 0
      else let e = exponent \<bar>x\<bar>;
               m = round_even (\<bar>x\<bar> * 2 powi (52 - e))
           in sgn x * of_int m * 2 powi (e - 52))"

subsection \<open>Samples and statistics\<close>

record sample =
  timestamp :: "int option"
  usedJSHeapSize :: "nat option"
  totalJSHeapSize :: "nat option"
  jsHeapSizeLimit :: "nat option"

text \<open>The result object \<^verbatim>\<open>{ min, max, avg, count }\<close> of \<^verbatim>\<open>calculateStats\<close>.\<close>

record stats =
  min_mb :: rat
  max_mb :: rat
  avg_mb :: rat
  count_n :: nat

text \<open>\<^verbatim>\<open>x || d\<close> on a number that may be absent: absent and \<open>0\<close> are falsy.\<close>

definition truthy :: "'a::zero option \<Rightarrow> bool" where
  "truthy x = (case x of None \<Rightarrow> False | Some v \<Rightarrow> v \<noteq> 0)"

definition or_else :: "'a::zero option \<Rightarrow> 'a \<Rightarrow> 'a" where
  "or_else x d = (if truthy x then the x else d)"

text \<open>\<^verbatim>\<open>Math.min(v, ...vs)\<close> and \<^verbatim>\<open>Math.max(v, ...vs)\<close> with at least one argument.\<close>

definition Math_min :: "rat \<Rightarrow> rat list \<Rightarrow> rat" where
  "Math_min v vs = foldl min v vs"

definition Math_max :: "rat \<Rightarrow> rat list \<Rightarrow> rat" where
  "Math_max v vs = foldl max v vs"

text \<open>
  \<^verbatim>\<open>Math.round((x / 1024 / 1024) * 100) / 100\<close>: two divisions, a multiplication and a
  division of doubles. \<^verbatim>\<open>Math.round\<close> itself is exact.
\<close>

definition to_mb :: "rat \<Rightarrow> rat" where
  "to_mb x =
     binary64 (of_int (round (binary64 (binary64 (binary64 (x / 1024) / 1024) * 100))) / 100)"

definition no_stats :: stats where
  "no_stats = \<lparr>min_mb = 0, max_mb = 0, avg_mb = 0, count_n = 0\<rparr>"

text \<open>
  \<^verbatim>\<open>calculateStats(samples)\<close>; the argument is \<open>None\<close> when the caller passes
  \<^verbatim>\<open>undefined\<close>. The byte count of a sample is the double that \<^verbatim>\<open>JSON.parse\<close> reads from
  its decimal digits; \<^verbatim>\<open>reduce\<close> adds the values from left to right, a double after every
  addition.
\<close>

fun calculateStats :: "sample list option \<Rightarrow> stats" where
  "calculateStats None = no_stats"
| "calculateStats (Some []) = no_stats"
| "calculateStats (Some (s # ss)) =
     (let values = map (\<lambda>s. binary64 (of_nat (or_else (usedJSHeapSize s) 0))) (s # ss);
          mn = Math_min (hd values) (tl values);
          mx = Math_max (hd values) (tl values);
          avg = binary64 (foldl (\<lambda>sum v. binary64 (sum + v)) 0 values / of_nat (length values))
      in \<lparr>min_mb = to_mb mn,
          max_mb = to_mb mx,
          avg_mb = to_mb avg,
          count_n = length values\<rparr>)"

subsection \<open>Objects as dictionaries\<close>

text \<open>
  A property read \<^verbatim>\<open>o[k]\<close> on a plain object finds an own property, or a member of
  \<^verbatim>\<open>Object.prototype\<close> (a function, or the prototype itself for \<^verbatim>\<open>__proto__\<close>: truthy,
  and without the properties \<^verbatim>\<open>samples\<close> and \<^verbatim>\<open>tests\<close>), or nothing.
\<close>

datatype 'a lookup = Own 'a | Inherited | Missing

definition proto_names :: "string list" where
  "proto_names =
     [''constructor'', ''__defineGetter__'', ''__defineSetter__'', ''hasOwnProperty'',
      ''__lookupGetter__'', ''__lookupSetter__'', ''isPrototypeOf'',
      ''propertyIsEnumerable'', ''toString'', ''valueOf'', ''__proto__'',
      ''toLocaleString'']"

definition obj_get :: "(string \<times> 'a) list \<Rightarrow> string \<Rightarrow> 'a lookup" where
  "obj_get obj k =
     (case map_of obj k of
        Some v \<Rightarrow> Own v
      | None \<Rightarrow> if k \<in> set proto_names then Inherited else Missing)"

text \<open>
  Property order: the keys that are array indices (canonical decimal numerals below
  \<open>2^32 - 1\<close>) come first, in ascending numeric order, then the other keys in the order
  of their creation.
\<close>

definition digit :: "char \<Rightarrow> bool" where
  "digit c = (48 \<le> (of_char c :: nat) \<and> (of_char c :: nat) \<le> 57)"

definition index_value :: "string \<Rightarrow> nat" where
  "index_value k = foldl (\<lambda>n c. 10 * n + (of_char c - 48)) 0 k"

definition is_array_index :: "string \<Rightarrow> bool" where
  "is_array_index k =
     (k \<noteq> [] \<and> list_all digit k \<and> (hd k = CHR ''0'' \<longrightarrow> length k = 1) \<and>
      length k \<le> 10 \<and> index_value k < 4294967295)"

text \<open>\<^verbatim>\<open>o[k] = v\<close> for a key that is not yet an own property.\<close>

definition obj_add :: "string \<Rightarrow> 'a \<Rightarrow> (string \<times> 'a) list \<Rightarrow> (string \<times> 'a) list" where
  "obj_add k v obj =
     (if is_array_index k
      then (let earlier = (\<lambda>(k', _). is_array_index k' \<and> index_value k' < index_value k)
            in takeWhile earlier obj @ [(k, v)] @ dropWhile earlier obj)
      else obj @ [(k, v)])"

text \<open>A mutation of the object stored under the own key \<open>k\<close>; the order is kept.\<close>

definition obj_modify :: "string \<Rightarrow> ('a \<Rightarrow> 'a) \<Rightarrow> (string \<times> 'a) list \<Rightarrow> (string \<times> 'a) list" where
  "obj_modify k f obj = map (\<lambda>(k', v). if k' = k then (k', f v) else (k', v)) obj"

text \<open>\<^verbatim>\<open>Object.values(o)\<close> and \<^verbatim>\<open>Object.entries(o)\<close> (the list itself).\<close>

definition Object_values :: "(string \<times> 'a) list \<Rightarrow> 'a list" where
  "Object_values obj = map snd obj"

subsection \<open>The snapshot\<close>

text \<open>\<^verbatim>\<open>{ samples: [] }\<close>, the entry of a test under its spec.\<close>

record testNode =
  tn_samples :: "sample list"

text \<open>
  An entry of \<^verbatim>\<open>data.specs\<close>. A \<^verbatim>\<open>startTime\<close> is the clock reading that
  \<^verbatim>\<open>toISOString\<close> prints, in milliseconds.
\<close>

record specRecord =
  sp_samples :: "sample list"
  sp_tests :: "(string \<times> testNode) list"
  sp_startTime :: "int option"

text \<open>An entry of \<^verbatim>\<open>data.tests\<close>.\<close>

record testRecord =
  tr_specPath :: string
  tr_testTitle :: string
  tr_samples :: "sample list"
  tr_startTime :: "int option"

record snapshot =
  runStartTime :: int
  specs :: "(string \<times> specRecord) list"
  tests :: "(string \<times> testRecord) list"
  config_trackSpecOnly :: bool
  config_debug :: bool

subsection \<open>Aggregation\<close>

text \<open>
  \<^verbatim>\<open>aggregateSpecStats(specData)\<close>: \<^verbatim>\<open>all.push(...td.samples)\<close> for every test, then
  the samples of the spec.
\<close>

definition aggregateSpecStats :: "specRecord \<Rightarrow> stats" where
  "aggregateSpecStats specData =
     (let all = foldl (\<lambda>all td. all @ tn_samples td) [] (Object_values (sp_tests specData));
          all = all @ sp_samples specData
      in calculateStats (Some all))"

text \<open>\<^verbatim>\<open>findMaxMemoryTest(specData)\<close>: the result is \<^verbatim>\<open>{ testName, memory }\<close>.\<close>

definition findMaxMemoryTest :: "specRecord \<Rightarrow> string \<times> rat" where
  "findMaxMemoryTest specData =
     foldl (\<lambda>(name, mx) (t, td).
              let st = calculateStats (Some (tn_samples td))
              in if max_mb st > mx then (t, max_mb st) else (name, mx))
       ('''', 0) (sp_tests specData)"

subsection \<open>The reports\<close>

text \<open>
  \<^verbatim>\<open>Array.prototype.sort(cmp)\<close> is a stable sort: \<open>x\<close> stays in front of \<open>y\<close> unless
  \<open>cmp x y > 0\<close>. With a comparator that is a difference of keys the result does not
  depend on the algorithm; it is computed here by insertion. The difference of two
  doubles is rounded, and has the sign of the exact difference.
\<close>

fun insert_cmp :: "('a \<Rightarrow> 'a \<Rightarrow> rat) \<Rightarrow> 'a \<Rightarrow> 'a list \<Rightarrow> 'a list" where
  "insert_cmp cmp x [] = [x]"
| "insert_cmp cmp x (y # ys) =
     (if cmp x y \<le> 0 then x # y # ys else y # insert_cmp cmp x ys)"

definition Array_sort :: "('a \<Rightarrow> 'a \<Rightarrow> rat) \<Rightarrow> 'a list \<Rightarrow> 'a list" where
  "Array_sort cmp xs = foldr (insert_cmp cmp) xs []"

text \<open>\<^verbatim>\<open>s.padEnd(n)\<close>\<close>

definition padEnd :: "nat \<Rightarrow> string \<Rightarrow> string" where
  "padEnd n s = s @ replicate (n - length s) (CHR '' '')"

text \<open>
  What \<^verbatim>\<open>console.log\<close> receives, line by line. The headings and the column titles are
  fixed texts; a row keeps its numbers as numbers (their decimal rendering and padding
  are left out) and its texts as the code pads and cuts them.
\<close>

datatype line =
    SpecHeading
  | TestHeading
  | Rule
  | SpecColumns
  | TestColumns
  | SpecRow string rat rat rat nat string
  | TestRow string string rat rat rat nat
  | MoreTests nat

text \<open>The comparator of \<^verbatim>\<open>generateSpecReport\<close>, on the entries \<^verbatim>\<open>[name, data]\<close>.\<close>

definition spec_cmp :: "string \<times> specRecord \<Rightarrow> string \<times> specRecord \<Rightarrow> rat" where
  "spec_cmp a b =
     binary64 (max_mb (aggregateSpecStats (snd b)) - max_mb (aggregateSpecStats (snd a)))"

definition spec_row :: "string \<times> specRecord \<Rightarrow> line" where
  "spec_row e =
     (let name = fst e; data = snd e;
          st = aggregateSpecStats data;
          peak = (let n = fst (findMaxMemoryTest data) in if n = [] then ''N/A'' else n)
      in SpecRow (padEnd 48 name) (min_mb st) (avg_mb st) (max_mb st) (count_n st)
           (padEnd 20 (take 20 peak)))"

definition generateSpecReport :: "(string \<times> specRecord) list \<Rightarrow> line list" where
  "generateSpecReport specs_obj =
     [SpecHeading, Rule, SpecColumns, Rule] @
     map spec_row (Array_sort spec_cmp specs_obj) @
     [Rule]"

text \<open>The comparator of \<^verbatim>\<open>generateTestReport\<close>.\<close>

definition test_cmp :: "testRecord \<Rightarrow> testRecord \<Rightarrow> rat" where
  "test_cmp a b =
     binary64 (max_mb (calculateStats (Some (tr_samples b)))
               - max_mb (calculateStats (Some (tr_samples a))))"

definition test_row :: "testRecord \<Rightarrow> line" where
  "test_row td =
     (let st = calculateStats (Some (tr_samples td));
          title = (if length (tr_testTitle td) > 40 then take 37 (tr_testTitle td) @ ''...''
                   else tr_testTitle td)
      in TestRow (padEnd 48 title) (padEnd 24 (tr_specPath td))
           (min_mb st) (avg_mb st) (max_mb st) (count_n st))"

definition generateTestReport :: "(string \<times> testRecord) list \<Rightarrow> line list" where
  "generateTestReport tests_obj =
     [TestHeading, Rule, TestColumns, Rule] @
     map test_row (take 50 (Array_sort test_cmp (Object_values tests_obj))) @
     (if length (map fst tests_obj) > 50 then [MoreTests (length (map fst tests_obj) - 50)]
      else []) @
     [Rule]"

subsection \<open>The store\<close>

text \<open>The fields of the tracker that \<^verbatim>\<open>configure\<close> sets.\<close>

record tracker =
  isEnabled :: bool
  trackSpecOnly :: bool
  debugEnabled :: bool

text \<open>
  What the tracker shares with its environment: the data file, and the system clock as
  the sequence of the values that successive reads return. \<open>loads\<close> and \<open>saves\<close> count
  the calls of \<^verbatim>\<open>loadData\<close> and \<^verbatim>\<open>saveData\<close>. A write that fails is outside the model.
\<close>

record world =
  dataFile :: "snapshot option"
  clock :: "nat \<Rightarrow> int"
  ticks :: nat
  loads :: nat
  saves :: nat

datatype error = TypeError

text \<open>\<^verbatim>\<open>Date.now()\<close>, and the time that \<^verbatim>\<open>new Date()\<close> holds.\<close>

definition Date_now :: "world \<Rightarrow> int \<times> world" where
  "Date_now w = (clock w (ticks w), w\<lparr>ticks := Suc (ticks w)\<rparr>)"

definition loadData :: "world \<Rightarrow> snapshot option \<times> world" where
  "loadData w = (dataFile w, w\<lparr>loads := Suc (loads w)\<rparr>)"

definition saveData :: "snapshot \<Rightarrow> world \<Rightarrow> world" where
  "saveData data w = w\<lparr>dataFile := Some data, saves := Suc (saves w)\<rparr>"

definition initializeData :: "tracker \<Rightarrow> world \<Rightarrow> world" where
  "initializeData tr w =
     (if \<not> isEnabled tr then w
      else let (t, w1) = Date_now w
           in saveData \<lparr>runStartTime = t, specs = [], tests = [],
                        config_trackSpecOnly = trackSpecOnly tr,
                        config_debug = debugEnabled tr\<rparr> w1)"

subsection \<open>Recording\<close>

text \<open>The key of a test in \<^verbatim>\<open>data.tests\<close>: the template \<^verbatim>\<open>`${specName}::${testTitle}`\<close>.\<close>

definition testKey_of :: "string \<Rightarrow> string \<Rightarrow> string" where
  "testKey_of specName title = specName @ ''::'' @ title"

text \<open>
  The object literal that \<^verbatim>\<open>recordSpecMemory\<close> and \<^verbatim>\<open>recordTestMemory\<close> push:
  \<^verbatim>\<open>{ timestamp: memoryData.timestamp || Date.now(), usedJSHeapSize: ..., ... }\<close>.
  The clock is read only when the time stamp is falsy.
\<close>

definition copy_sample :: "sample \<Rightarrow> world \<Rightarrow> sample \<times> world" where
  "copy_sample memoryData w =
     (let (ts, w') = (if truthy (timestamp memoryData) then (the (timestamp memoryData), w)
                      else Date_now w)
      in (\<lparr>timestamp = Some ts,
           usedJSHeapSize = usedJSHeapSize memoryData,
           totalJSHeapSize = totalJSHeapSize memoryData,
           jsHeapSizeLimit = jsHeapSizeLimit memoryData\<rparr>, w'))"

text \<open>\<^verbatim>\<open>data.specs[specName].samples.push(s)\<close> on an own entry.\<close>

definition push_spec_sample :: "string \<Rightarrow> sample \<Rightarrow> snapshot \<Rightarrow> snapshot" where
  "push_spec_sample specName s data =
     data\<lparr>specs := obj_modify specName (\<lambda>sr. sr\<lparr>sp_samples := sp_samples sr @ [s]\<rparr>) (specs data)\<rparr>"

text \<open>\<^verbatim>\<open>data.tests[testKey].samples.push(s)\<close> on an own entry.\<close>

definition push_test_sample :: "string \<Rightarrow> sample \<Rightarrow> snapshot \<Rightarrow> snapshot" where
  "push_test_sample testKey s data =
     data\<lparr>tests := obj_modify testKey (\<lambda>td. td\<lparr>tr_samples := tr_samples td @ [s]\<rparr>) (tests data)\<rparr>"

text \<open>\<^verbatim>\<open>data.specs[specName].tests[testTitle].samples.push(s)\<close> on own entries.\<close>

definition push_node_sample :: "string \<Rightarrow> string \<Rightarrow> sample \<Rightarrow> snapshot \<Rightarrow> snapshot" where
  "push_node_sample specName title s data =
     data\<lparr>specs :=
       obj_modify specName
         (\<lambda>sr. sr\<lparr>sp_tests :=
            obj_modify title (\<lambda>tn. tn\<lparr>tn_samples := tn_samples tn @ [s]\<rparr>) (sp_tests sr)\<rparr>)
         (specs data)\<rparr>"

text \<open>
  The two guards that \<^verbatim>\<open>recordTestMemory\<close> and \<^verbatim>\<open>recordMemoryBatch\<close> have in common:
  \<^verbatim>\<open>if (!data.specs[specName]) data.specs[specName] = { samples: [], tests: {} }\<close> and
  \<^verbatim>\<open>if (!data.specs[specName].tests[testTitle]) ... = { samples: [] }\<close>.
  A name that \<^verbatim>\<open>Object.prototype\<close> answers passes the guard and has no \<^verbatim>\<open>tests\<close> and
  no \<^verbatim>\<open>samples\<close>: reading a property of \<^verbatim>\<open>undefined\<close> raises, in the second guard or
  in the \<^verbatim>\<open>push\<close> after it, before the arguments of \<^verbatim>\<open>push\<close> are evaluated.
\<close>

definition ensure_node :: "string \<Rightarrow> string \<Rightarrow> snapshot \<Rightarrow> error + snapshot" where
  "ensure_node specName title data =
     (let data1 = (case obj_get (specs data) specName of
                     Missing \<Rightarrow>
                       data\<lparr>specs := obj_add specName
                         \<lparr>sp_samples = [], sp_tests = [], sp_startTime = None\<rparr> (specs data)\<rparr>
                   | _ \<Rightarrow> data)
      in case obj_get (specs data1) specName of
           Own sr \<Rightarrow>
             (case obj_get (sp_tests sr) title of
                Missing \<Rightarrow>
                  Inr (data1\<lparr>specs := obj_modify specName
                         (\<lambda>sr. sr\<lparr>sp_tests := obj_add title \<lparr>tn_samples = []\<rparr> (sp_tests sr)\<rparr>)
                         (specs data1)\<rparr>)
              | Own _ \<Rightarrow> Inr data1
              | Inherited \<Rightarrow> Inl TypeError)
         | _ \<Rightarrow> Inl TypeError)"

text \<open>\<^verbatim>\<open>recordSpecMemory(specName, memoryData)\<close>\<close>

definition recordSpecMemory ::
  "tracker \<Rightarrow> string \<Rightarrow> sample \<Rightarrow> world \<Rightarrow> (error + unit) \<times> world" where
  "recordSpecMemory tr specName memoryData w =
     (if \<not> isEnabled tr then (Inr (), w)
      else case loadData w of
        (None, w1) \<Rightarrow> (Inr (), w1)
      | (Some data, w1) \<Rightarrow>
          (let (data1, w2) =
                 (case obj_get (specs data) specName of
                    Missing \<Rightarrow>
                      (let (t, w') = Date_now w1
                       in (data\<lparr>specs := obj_add specName
                             \<lparr>sp_samples = [], sp_tests = [], sp_startTime = Some t\<rparr>
                             (specs data)\<rparr>, w'))
                  | _ \<Rightarrow> (data, w1))
           in case obj_get (specs data1) specName of
                Own _ \<Rightarrow>
                  (let (s, w3) = copy_sample memoryData w2
                   in (Inr (), saveData (push_spec_sample specName s data1) w3))
              | _ \<Rightarrow> (Inl TypeError, w2)))"

text \<open>
  \<^verbatim>\<open>recordTestMemory(specName, testTitle, memoryData, specPath)\<close>; the body does not use
  its fourth parameter.
\<close>

definition recordTestMemory ::
  "tracker \<Rightarrow> string \<Rightarrow> string \<Rightarrow> sample \<Rightarrow> world \<Rightarrow> (error + unit) \<times> world" where
  "recordTestMemory tr specName title memoryData w =
     (if \<not> isEnabled tr then (Inr (), w)
      else case loadData w of
        (None, w1) \<Rightarrow> (Inr (), w1)
      | (Some data, w1) \<Rightarrow>
          (let testKey = testKey_of specName title;
               (data1, w2) =
                 (case obj_get (tests data) testKey of
                    Missing \<Rightarrow>
                      (let (t, w') = Date_now w1
                       in (data\<lparr>tests := obj_add testKey
                             \<lparr>tr_specPath = specName, tr_testTitle = title,
                              tr_samples = [], tr_startTime = Some t\<rparr>
                             (tests data)\<rparr>, w'))
                  | _ \<Rightarrow> (data, w1))
           in case obj_get (tests data1) testKey of
                Own _ \<Rightarrow>
                  (let (s, w3) = copy_sample memoryData w2;
                       data2 = push_test_sample testKey s data1
                   in case ensure_node specName title data2 of
                        Inl e \<Rightarrow> (Inl e, w3)
                      | Inr data3 \<Rightarrow>
                          (let (s', w4) = copy_sample memoryData w3
                           in (Inr (), saveData (push_node_sample specName title s' data3) w4)))
              | _ \<Rightarrow> (Inl TypeError, w2)))"

text \<open>An element of \<^verbatim>\<open>batchData.batch\<close>, and \<^verbatim>\<open>batchData\<close>.\<close>

record item =
  specName :: string
  testTitle :: string
  memory :: sample

text \<open>\<open>batch = None\<close>: the property \<^verbatim>\<open>batch\<close> is not an array.\<close>

record batchData =
  batch :: "item list option"
  batchIndex :: nat
  totalBatches :: nat

text \<open>The body of the \<^verbatim>\<open>forEach\<close> of \<^verbatim>\<open>recordMemoryBatch\<close>, for one item.\<close>

definition batch_item :: "item \<Rightarrow> snapshot \<Rightarrow> error + snapshot" where
  "batch_item it data =
     (let testKey = testKey_of (specName it) (testTitle it);
          data1 = (case obj_get (tests data) testKey of
                     Missing \<Rightarrow>
                       data\<lparr>tests := obj_add testKey
                         \<lparr>tr_specPath = specName it, tr_testTitle = testTitle it,
                          tr_samples = [], tr_startTime = None\<rparr>
                         (tests data)\<rparr>
                   | _ \<Rightarrow> data)
      in case obj_get (tests data1) testKey of
           Own _ \<Rightarrow>
             (let data2 = push_test_sample testKey (memory it) data1
              in case ensure_node (specName it) (testTitle it) data2 of
                   Inl e \<Rightarrow> Inl e
                 | Inr data3 \<Rightarrow>
                     Inr (push_node_sample (specName it) (testTitle it) (memory it) data3))
         | _ \<Rightarrow> Inl TypeError)"

text \<open>The \<^verbatim>\<open>forEach\<close>, with the flag \<^verbatim>\<open>modified\<close>; an exception ends it.\<close>

fun batch_forEach :: "item list \<Rightarrow> snapshot \<times> bool \<Rightarrow> error + snapshot \<times> bool" where
  "batch_forEach [] st = Inr st"
| "batch_forEach (it # its) (data, modified) =
     (case batch_item it data of
        Inl e \<Rightarrow> Inl e
      | Inr data' \<Rightarrow> batch_forEach its (data', True))"

text \<open>\<^verbatim>\<open>recordMemoryBatch(batchData)\<close>\<close>

definition recordMemoryBatch :: "tracker \<Rightarrow> batchData \<Rightarrow> world \<Rightarrow> (error + unit) \<times> world" where
  "recordMemoryBatch tr bd w =
     (if \<not> isEnabled tr \<or> batch bd = None then (Inr (), w)
      else case loadData w of
        (None, w1) \<Rightarrow> (Inr (), w1)
      | (Some data, w1) \<Rightarrow>
          (case batch_forEach (the (batch bd)) (data, False) of
             Inl e \<Rightarrow> (Inl e, w1)
           | Inr (data', modified) \<Rightarrow>
               (Inr (), if modified then saveData data' w1 else w1)))"

subsection \<open>Notions of the specification, and sample data\<close>

text \<open>Bytes to mebibytes.\<close>

definition mebibytes :: "rat \<Rightarrow> rat" where
  "mebibytes x = x / 1024 / 1024"

text \<open>
  \<open>r\<close> is \<open>x\<close> rounded to two decimal places: a multiple of one hundredth, at most half
  a hundredth away from \<open>x\<close>.
\<close>

definition rounded_2dp :: "rat \<Rightarrow> rat \<Rightarrow> bool" where
  "rounded_2dp x r = (of_int \<lfloor>r * 100\<rfloor> = r * 100 \<and> \<bar>r - x\<bar> \<le> 1 / 200)"

text \<open>The arithmetic mean.\<close>

definition mean :: "nat list \<Rightarrow> rat" where
  "mean vs = of_nat (sum_list vs) / of_nat (length vs)"

text \<open>A sample that has only \<^verbatim>\<open>usedJSHeapSize\<close>, and one that has no heap size at all.\<close>

definition heap :: "nat \<Rightarrow> sample" where
  "heap v = \<lparr>timestamp = None, usedJSHeapSize = Some v,
             totalJSHeapSize = None, jsHeapSizeLimit = None\<rparr>"

definition no_heap :: sample where
  "no_heap = \<lparr>timestamp = Some 1700000000000, usedJSHeapSize = None,
              totalJSHeapSize = None, jsHeapSizeLimit = None\<rparr>"

text \<open>
  \<open>r\<close> is a multiple of one hundredth that is at most half a hundredth and \<open>2 ^ -18\<close>
  hundredths away from \<open>x\<close>: \<open>x\<close> rounded to two decimal places, or, where \<open>x\<close> is within
  \<open>2 ^ -18\<close> hundredths of the middle between two hundredths, the other of the two.
\<close>

definition nearly_rounded_2dp :: "rat \<Rightarrow> rat \<Rightarrow> bool" where
  "nearly_rounded_2dp x r =
     (of_int \<lfloor>r * 100\<rfloor> = r * 100 \<and> \<bar>r - x\<bar> \<le> 1 / 200 + 1 / 100 / 2 ^ 18)"

text \<open>The heap size that a sample counts with: 0 where it has none.\<close>

definition bytes :: "sample \<Rightarrow> nat" where
  "bytes s = (case usedJSHeapSize s of None \<Rightarrow> 0 | Some v \<Rightarrow> v)"

text \<open>
  Five samples whose mean is 0.575 MiB, and 111382 samples whose mean is a little less
  than 3563.845 MiB.
\<close>

definition near_tie :: "sample list" where
  "near_tie = [heap 602931, heap 602931, heap 602931, heap 602931, heap 602932]"

definition big :: "sample list" where
  "big = replicate 80195 (heap 3736962335) @ replicate 31187 (heap 3736962334)"

text \<open>The \<open>max\<close> figure of a test under its spec, of a spec, and of a test record.\<close>

definition peak_of :: "testNode \<Rightarrow> rat" where
  "peak_of td = max_mb (calculateStats (Some (tn_samples td)))"

definition agg_max :: "string \<times> specRecord \<Rightarrow> rat" where
  "agg_max e = max_mb (aggregateSpecStats (snd e))"

definition test_max :: "testRecord \<Rightarrow> rat" where
  "test_max td = max_mb (calculateStats (Some (tr_samples td)))"

text \<open>One step of the loop of \<^verbatim>\<open>findMaxMemoryTest\<close>.\<close>

definition peak_step :: "string \<times> rat \<Rightarrow> string \<times> testNode \<Rightarrow> string \<times> rat" where
  "peak_step = (\<lambda>(name, mx) (t, td).
              let st = calculateStats (Some (tn_samples td))
              in if max_mb st > mx then (t, max_mb st) else (name, mx))"

text \<open>The \<open>max\<close> column of the rows of a report, from top to bottom.\<close>

definition row_max :: "line \<Rightarrow> rat option" where
  "row_max l =
     (case l of
        SpecRow _ _ _ mx _ _ \<Rightarrow> Some mx
      | TestRow _ _ _ _ mx _ \<Rightarrow> Some mx
      | _ \<Rightarrow> None)"

definition row_maxes :: "line list \<Rightarrow> rat list" where
  "row_maxes out = List.map_filter row_max out"

text \<open>A sample of \<open>n\<close> MiB; a spec record with the given tests and direct samples.\<close>

definition mib :: "nat \<Rightarrow> sample" where
  "mib n = heap (n * 1048576)"

definition spec_of :: "(string \<times> sample list) list \<Rightarrow> sample list \<Rightarrow> specRecord" where
  "spec_of ts direct =
     \<lparr>sp_samples = direct, sp_tests = map (\<lambda>(t, ss). (t, \<lparr>tn_samples = ss\<rparr>)) ts,
      sp_startTime = None\<rparr>"

text \<open>A spec whose only test stays below half a hundredth of a mebibyte.\<close>

definition tiny :: specRecord where
  "tiny = spec_of [(''loads the page'', [heap 1024])] []"

text \<open>A spec whose tests \<open>b\<close> and \<open>c\<close> share the greatest maximum.\<close>

definition tied :: specRecord where
  "tied = spec_of [(''a'', [mib 2]), (''b'', [mib 3, mib 1]), (''c'', [mib 3])] []"

text \<open>Three specs with the maxima 5, 1 and 3 MiB.\<close>

definition three_specs :: "(string \<times> specRecord) list" where
  "three_specs =
     [(''a.cy.js'', spec_of [] [mib 5]), (''b.cy.js'', spec_of [] [mib 1]),
      (''c.cy.js'', spec_of [(''t'', [mib 3])] [])]"

text \<open>Fifty-one test records, of 0, 1, ..., 50 MiB.\<close>

definition fifty_one :: "(string \<times> testRecord) list" where
  "fifty_one =
     map (\<lambda>i. (''s.cy.js::t'' @ replicate i (CHR ''x''),
               \<lparr>tr_specPath = ''s.cy.js'', tr_testTitle = ''t'' @ replicate i (CHR ''x''),
                tr_samples = [mib i], tr_startTime = None\<rparr>))
       [0..<51]"

text \<open>
  The write of one sample under the test key and under the spec, as both
  \<^verbatim>\<open>recordTestMemory\<close> and the loop of \<^verbatim>\<open>recordMemoryBatch\<close> perform it; they differ in the
  \<^verbatim>\<open>startTime\<close> that a new test record gets (\<open>st\<close>), and in the sample they push.
\<close>

definition dual_write :: "int option \<Rightarrow> item \<Rightarrow> sample \<Rightarrow> sample \<Rightarrow> snapshot \<Rightarrow> error + snapshot" where
  "dual_write st it s s' data =
     (let testKey = testKey_of (specName it) (testTitle it);
          data1 = (case obj_get (tests data) testKey of
                     Missing \<Rightarrow>
                       data\<lparr>tests := obj_add testKey
                         \<lparr>tr_specPath = specName it, tr_testTitle = testTitle it,
                          tr_samples = [], tr_startTime = st\<rparr>
                         (tests data)\<rparr>
                   | _ \<Rightarrow> data)
      in case obj_get (tests data1) testKey of
           Own _ \<Rightarrow>
             (case ensure_node (specName it) (testTitle it) (push_test_sample testKey s data1) of
                Inl e \<Rightarrow> Inl e
              | Inr data3 \<Rightarrow> Inr (push_node_sample (specName it) (testTitle it) s' data3))
         | _ \<Rightarrow> Inl TypeError)"

text \<open>A snapshot without the \<^verbatim>\<open>startTime\<close> of its test records.\<close>

definition strip_start :: "snapshot \<Rightarrow> snapshot" where
  "strip_start data =
     data\<lparr>tests := map (\<lambda>(k, td). (k, td\<lparr>tr_startTime := None\<rparr>)) (tests data)\<rparr>"

text \<open>\<^verbatim>\<open>recordTestMemory\<close> called for the items of a batch, one after the other.\<close>

definition one_by_one :: "tracker \<Rightarrow> item list \<Rightarrow> world \<Rightarrow> world" where
  "one_by_one tr its w =
     foldl (\<lambda>w it. snd (recordTestMemory tr (specName it) (testTitle it) (memory it) w)) w its"

text \<open>The samples of a test in the two places that hold them.\<close>

definition test_samples :: "snapshot \<Rightarrow> string \<Rightarrow> string \<Rightarrow> sample list option" where
  "test_samples data s t = map_option tr_samples (map_of (tests data) (testKey_of s t))"

definition node_samples :: "snapshot \<Rightarrow> string \<Rightarrow> string \<Rightarrow> sample list option" where
  "node_samples data s t =
     (case map_of (specs data) s of
        None \<Rightarrow> None
      | Some sr \<Rightarrow> map_option tn_samples (map_of (sp_tests sr) t))"

text \<open>
  A tracker that is enabled. A world without data file, whose clock shows the same
  millisecond for its first three reads and the next millisecond from then on; and this
  world after \<^verbatim>\<open>initializeData\<close>.
\<close>

definition tracking :: tracker where
  "tracking = \<lparr>isEnabled = True, trackSpecOnly = False, debugEnabled = False\<rparr>"

definition fresh :: world where
  "fresh = \<lparr>dataFile = None,
            clock = (\<lambda>n. if n < 3 then 1700000000000 else 1700000000001),
            ticks = 0, loads = 0, saves = 0\<rparr>"

definition started :: world where
  "started = initializeData tracking fresh"

text \<open>
  The sample that the support file sends at the start of a test (it has no time stamp),
  and one that its timer buffers.
\<close>

definition at_start :: sample where
  "at_start = \<lparr>timestamp = None, usedJSHeapSize = Some 10485760,
               totalJSHeapSize = Some 20971520, jsHeapSizeLimit = Some 2147483648\<rparr>"

definition buffered :: sample where
  "buffered = \<lparr>timestamp = Some 1700000000500, usedJSHeapSize = Some 10485760,
               totalJSHeapSize = Some 20971520, jsHeapSizeLimit = Some 2147483648\<rparr>"

definition one_item :: item where
  "one_item = \<lparr>specName = ''login.cy.js'', testTitle = ''logs in'', memory = buffered\<rparr>"

definition no_batch :: batchData where
  "no_batch = \<lparr>batch = None, batchIndex = 0, totalBatches = 1\<rparr>"

definition batch_of :: "item list \<Rightarrow> batchData" where
  "batch_of its = \<lparr>batch = Some its, batchIndex = 0, totalBatches = 1\<rparr>"

text \<open>
  An item whose sample has a time stamp that is not 0, and whose names are not names of
  \<^verbatim>\<open>Object.prototype\<close>.
\<close>

definition plain_item :: "item \<Rightarrow> bool" where
  "plain_item it =
     (truthy (timestamp (memory it)) \<and>
      specName it \<notin> set proto_names \<and> testTitle it \<notin> set proto_names)"

text \<open>The samples recorded so far, where there may be no entry yet.\<close>

definition so_far :: "sample list option \<Rightarrow> sample list" where
  "so_far x = (case x of None \<Rightarrow> [] | Some xs \<Rightarrow> xs)"

text \<open>Two tests whose spec names and titles give the same key.\<close>

definition colliding :: "item list" where
  "colliding =
     [\<lparr>specName = ''a::b'', testTitle = ''c'', memory = buffered\<rparr>,
      \<lparr>specName = ''a'', testTitle = ''b::c'', memory = buffered\<rparr>]"

text \<open>A test that is called after a member of \<^verbatim>\<open>Object.prototype\<close>.\<close>

definition constructor_item :: item where
  "constructor_item = \<lparr>specName = ''model.cy.js'', testTitle = ''constructor'', memory = buffered\<rparr>"

text \<open>An item whose sample has no time stamp.\<close>

definition unstamped_item :: item where
  "unstamped_item = \<lparr>specName = ''login.cy.js'', testTitle = ''logs in'', memory = at_start\<rparr>"

text \<open>The first column of the rows of a report, from top to bottom.\<close>

definition row_name :: "line \<Rightarrow> string option" where
  "row_name l =
     (case l of
        SpecRow name _ _ _ _ _ \<Rightarrow> Some name
      | TestRow title _ _ _ _ _ \<Rightarrow> Some title
      | _ \<Rightarrow> None)"

definition row_names :: "line list \<Rightarrow> string list" where
  "row_names out = List.map_filter row_name out"

text \<open>Three test records with the maxima 1, 5 and 3 MiB.\<close>

definition three_tests :: "(string \<times> testRecord) list" where
  "three_tests =
     [(testKey_of ''a.cy.js'' ''one'',
       \<lparr>tr_specPath = ''a.cy.js'', tr_testTitle = ''one'', tr_samples = [mib 1],
        tr_startTime = None\<rparr>),
      (testKey_of ''a.cy.js'' ''five'',
       \<lparr>tr_specPath = ''a.cy.js'', tr_testTitle = ''five'', tr_samples = [mib 5, mib 3],
        tr_startTime = None\<rparr>),
      (testKey_of ''b.cy.js'' ''three'',
       \<lparr>tr_specPath = ''b.cy.js'', tr_testTitle = ''three'', tr_samples = [mib 3],
        tr_startTime = None\<rparr>)]"

text \<open>
  The specs of the data file. The world after a sample for the spec \<open>z.cy.js\<close>, and after
  a sample for the spec \<open>10\<close> that follows it; both samples are of 10 MiB.
\<close>

definition saved_specs :: "world \<Rightarrow> (string \<times> specRecord) list" where
  "saved_specs w = (case dataFile w of None \<Rightarrow> [] | Some d \<Rightarrow> specs d)"

definition z_first :: world where
  "z_first = snd (recordSpecMemory tracking ''z.cy.js'' buffered started)"

definition z_then_10 :: world where
  "z_then_10 = snd (recordSpecMemory tracking ''10'' buffered z_first)"

text \<open>
  A buffered sample taken at the time \<open>t\<close>; a batch of three items for two tests, the
  first and the last for the same test.
\<close>

definition stamped :: "int \<Rightarrow> sample" where
  "stamped t = \<lparr>timestamp = Some t, usedJSHeapSize = Some 10485760,
                 totalJSHeapSize = Some 20971520, jsHeapSizeLimit = Some 2147483648\<rparr>"

definition three_items :: "item list" where
  "three_items =
     [\<lparr>specName = ''login.cy.js'', testTitle = ''logs in'', memory = stamped 1700000001000\<rparr>,
      \<lparr>specName = ''login.cy.js'', testTitle = ''logs out'', memory = stamped 1700000002000\<rparr>,
      \<lparr>specName = ''login.cy.js'', testTitle = ''logs in'', memory = stamped 1700000003000\<rparr>]"

text \<open>The \<^verbatim>\<open>startTime\<close> of the test records of the data file, in their order.\<close>

definition saved_startTimes :: "world \<Rightarrow> int option list" where
  "saved_startTimes w =
     (case dataFile w of None \<Rightarrow> [] | Some d \<Rightarrow> map (\<lambda>e. tr_startTime (snd e)) (tests d))"

section \<open>Properties\<close>

subsection \<open>Rounding to a double\<close>

lemma round_even_cases:
  "round_even x = \<lfloor>x\<rfloor> \<and> x - of_int \<lfloor>x\<rfloor> \<le> 1 / 2 \<or>
   round_even x = \<lfloor>x\<rfloor> + 1 \<and> 1 / 2 \<le> x - of_int \<lfloor>x\<rfloor>"
  by (auto simp: round_even_def Let_def)

lemma round_even_error: "\<bar>of_int (round_even x) - x\<bar> \<le> 1 / 2"
proof -
  have "of_int \<lfloor>x\<rfloor> \<le> x" "x < of_int \<lfloor>x\<rfloor> + 1"
    by linarith+
  then show ?thesis
    using round_even_cases [of x] by (auto simp: abs_le_iff)
qed

lemma round_even_of_int [simp]: "round_even (of_int i) = i"
  by (simp add: round_even_def)

lemma round_even_ge:
  assumes "of_int i \<le> x"
  shows "i \<le> round_even x"
proof -
  have "i \<le> \<lfloor>x\<rfloor>"
    using assms by (simp add: le_floor_iff)
  then show ?thesis
    using round_even_cases [of x] by auto
qed

lemma round_even_le:
  assumes "x \<le> of_int i"
  shows "round_even x \<le> i"
proof (cases "x = of_int i")
  case True
  then show ?thesis by simp
next
  case False
  then have "x < of_int i"
    using assms by simp
  then have "\<lfloor>x\<rfloor> < i"
    by (simp add: floor_less_iff)
  then show ?thesis
    using round_even_cases [of x] by auto
qed

lemma exponent_bounds:
  assumes "0 < x"
  shows "2 powi exponent x \<le> x \<and> x < 2 powi (exponent x + 1)"
proof -
  obtain p q where pq: "quotient_of x = (p, q)"
    by (cases "quotient_of x")
  have q: "0 < q" and x: "x = of_int p / of_int q"
    using pq by (auto simp: quotient_of_denom_pos quotient_of_div)
  have p: "0 < p"
    using assms q unfolding x by (simp add: zero_less_divide_iff)
  define d where "d = bitlen p - bitlen q"
  have int_bounds: "2 powi (bitlen n - 1) \<le> (of_int n :: rat) \<and> (of_int n :: rat) < 2 powi bitlen n"
    if "0 < n" for n
  proof -
    have one: "1 \<le> bitlen n"
      using that by (simp add: bitlen_alt_def)
    have "2 ^ nat (bitlen n - 1) \<le> n" "n < 2 ^ nat (bitlen n)"
      using bitlen_bounds [OF that] by simp_all
    then have "(of_int (2 ^ nat (bitlen n - 1)) :: rat) \<le> of_int n"
      "(of_int n :: rat) < of_int (2 ^ nat (bitlen n))"
      by (simp_all only: of_int_le_iff of_int_less_iff)
    then show ?thesis
      using one by (simp add: power_int_def)
  qed
  have lower: "2 powi (d - 1) < x"
  proof -
    have "2 powi (bitlen p - 1) \<le> (of_int p :: rat)" "(of_int q :: rat) < 2 powi bitlen q"
      using int_bounds p q by simp_all
    then have "(2 powi (bitlen p - 1) :: rat) / 2 powi bitlen q < of_int p / of_int q"
      using q p by (intro frac_less2) simp_all
    then show ?thesis
      by (simp add: x d_def power_int_diff)
  qed
  have upper: "x < 2 powi (d + 1)"
  proof -
    have "(of_int p :: rat) < 2 powi bitlen p" "2 powi (bitlen q - 1) \<le> (of_int q :: rat)"
      using int_bounds p q by simp_all
    then have "of_int p / of_int q < (2 powi bitlen p :: rat) / 2 powi (bitlen q - 1)"
      using q p by (intro frac_less) simp_all
    then show ?thesis
      by (simp add: x d_def power_int_diff power_int_add)
  qed
  show ?thesis
  proof (cases "2 powi d \<le> x")
    case True
    then show ?thesis
      using upper by (simp add: exponent_def pq d_def)
  next
    case False
    then show ?thesis
      using lower by (simp add: exponent_def pq d_def less_imp_le)
  qed
qed

lemma exponent_unique:
  assumes "2 powi e \<le> x" and "x < 2 powi (e + 1)"
  shows "exponent x = e"
proof -
  have pos: "0 < x"
    using assms(1) by (meson less_le_trans zero_less_numeral zero_less_power_int)
  have a: "(2::rat) powi e < 2 powi (exponent x + 1)"
    using assms(1) exponent_bounds [OF pos] by linarith
  have b: "(2::rat) powi exponent x < 2 powi (e + 1)"
    using assms(2) exponent_bounds [OF pos] by linarith
  have "\<not> exponent x + 1 \<le> e"
    using a power_int_increasing [of "exponent x + 1" e "2::rat"] by auto
  moreover have "\<not> e + 1 \<le> exponent x"
    using b power_int_increasing [of "e + 1" "exponent x" "2::rat"] by auto
  ultimately show ?thesis
    by simp
qed

lemma binary64_pos:
  assumes "0 < x"
  shows "binary64 x = of_int (round_even (x * 2 powi (52 - exponent x))) * 2 powi (exponent x - 52)"
  using assms by (simp add: binary64_def Let_def)

lemma binary64_at:
  assumes "2 powi e \<le> x" and "x < 2 powi (e + 1)"
  shows "binary64 x = of_int (round_even (x * 2 powi (52 - e))) * 2 powi (e - 52)"
proof -
  have "0 < x"
    using assms(1) by (meson less_le_trans zero_less_numeral zero_less_power_int)
  then show ?thesis
    by (simp add: binary64_pos exponent_unique [OF assms])
qed

lemma significand_bounds:
  assumes "0 < x"
  shows "2 ^ 52 \<le> x * 2 powi (52 - exponent x) \<and> x * 2 powi (52 - exponent x) < 2 ^ 53"
proof -
  let ?e = "exponent x"
  have b: "2 powi ?e \<le> x" "x < 2 powi (?e + 1)"
    using exponent_bounds [OF assms] by simp_all
  have pos: "(0::rat) < 2 powi (52 - ?e)"
    by simp
  have "2 powi ?e * 2 powi (52 - ?e) \<le> x * 2 powi (52 - ?e)"
    using b(1) pos by (simp only: mult_le_cancel_right_pos)
  moreover have "x * 2 powi (52 - ?e) < 2 powi (?e + 1) * 2 powi (52 - ?e)"
    using b(2) pos by (simp only: mult_less_cancel_right_pos)
  moreover have "(2::rat) powi ?e * 2 powi (52 - ?e) = 2 ^ 52"
    "(2::rat) powi (?e + 1) * 2 powi (52 - ?e) = 2 ^ 53"
    by (simp_all flip: power_int_add)
  ultimately show ?thesis
    by simp
qed

lemma binary64_error:
  assumes "0 < x"
  shows "\<bar>binary64 x - x\<bar> \<le> x / 2 ^ 53"
proof -
  let ?e = "exponent x"
  let ?m = "x * 2 powi (52 - ?e)"
  have scale: "?m * 2 powi (?e - 52) = x"
    by (simp add: mult.assoc flip: power_int_add)
  have "\<bar>binary64 x - x\<bar> = \<bar>of_int (round_even ?m) * 2 powi (?e - 52) - ?m * 2 powi (?e - 52)\<bar>"
    by (simp only: binary64_pos [OF assms] scale)
  also have "\<dots> = \<bar>of_int (round_even ?m) - ?m\<bar> * 2 powi (?e - 52)"
    by (simp add: abs_mult flip: left_diff_distrib)
  also have "\<dots> \<le> 1 / 2 * 2 powi (?e - 52)"
    using round_even_error [of ?m] by (intro mult_right_mono) simp_all
  also have "\<dots> = 2 powi ?e / 2 ^ 53"
    by (simp add: power_int_diff)
  also have "\<dots> \<le> x / 2 ^ 53"
    using exponent_bounds [OF assms] by (simp add: divide_right_mono)
  finally show ?thesis .
qed

lemma binary64_exact:
  assumes "0 < i" and "i < 2 ^ 53"
  shows "binary64 (of_int i * 2 powi k) = of_int i * 2 powi k"
proof -
  let ?x = "of_int i * 2 powi k :: rat"
  let ?e = "exponent ?x"
  have pos: "0 < ?x"
    using assms(1) by simp
  have b: "2 powi ?e \<le> ?x"
    using exponent_bounds [OF pos] by simp
  have "(of_int i :: rat) < of_int (2 ^ 53)"
    using assms(2) by (simp only: of_int_less_iff)
  then have "(of_int i :: rat) < 2 ^ 53"
    by simp
  then have lt: "?x < 2 ^ 53 * 2 powi k"
    by (intro mult_strict_right_mono) simp_all
  have eq: "(2::rat) powi (53 + k) = 2 ^ 53 * 2 powi k"
    by (simp add: power_int_add)
  have "(2::rat) powi ?e < 2 powi (53 + k)"
    unfolding eq using b lt by (rule le_less_trans)
  then have "\<not> 53 + k \<le> ?e"
    using power_int_increasing [of "53 + k" ?e "2::rat"] by auto
  then have nonneg: "0 \<le> k + 52 - ?e"
    by simp
  have "?x * 2 powi (52 - ?e) = of_int i * 2 powi (k + 52 - ?e)"
    by (simp add: mult.assoc algebra_simps flip: power_int_add)
  also have "\<dots> = of_int (i * 2 ^ nat (k + 52 - ?e))"
    using nonneg by (simp add: power_int_def)
  finally have m: "?x * 2 powi (52 - ?e) = of_int (i * 2 ^ nat (k + 52 - ?e))" .
  have "binary64 ?x = of_int (i * 2 ^ nat (k + 52 - ?e)) * 2 powi (?e - 52)"
    by (simp only: binary64_pos [OF pos] m round_even_of_int)
  also have "\<dots> = ?x * 2 powi (52 - ?e) * 2 powi (?e - 52)"
    by (simp only: m)
  also have "\<dots> = ?x"
    by (simp add: mult.assoc flip: power_int_add)
  finally show ?thesis .
qed

lemma binary64_of_nat: "n < 2 ^ 53 \<Longrightarrow> binary64 (of_nat n) = of_nat n"
proof (cases "n = 0")
  case True
  then show ?thesis by (simp add: binary64_def)
next
  case False
  assume "n < 2 ^ 53"
  then have "int n < 2 ^ 53"
    by (metis of_nat_less_iff of_nat_numeral of_nat_power)
  then show ?thesis
    using binary64_exact [of "int n" 0] False by simp
qed

lemma binary64_0 [simp]: "binary64 0 = 0"
  by (simp add: binary64_def)

lemma binary64_minus: "binary64 (- x) = - binary64 x"
  by (simp add: binary64_def Let_def)

lemma significand_rounded:
  assumes "0 < x"
  shows "2 ^ 52 \<le> round_even (x * 2 powi (52 - exponent x)) \<and>
         round_even (x * 2 powi (52 - exponent x)) \<le> 2 ^ 53"
proof -
  let ?m = "x * 2 powi (52 - exponent x)"
  have "of_int (2 ^ 52) \<le> ?m" "?m \<le> of_int (2 ^ 53)"
    using significand_bounds [OF assms] by simp_all
  then show ?thesis
    by (intro conjI round_even_ge round_even_le)
qed

lemma binary64_positive:
  assumes "0 < x"
  shows "0 < binary64 x"
proof -
  have "(0::int) < 2 ^ 52"
    by simp
  then have "0 < round_even (x * 2 powi (52 - exponent x))"
    using significand_rounded [OF assms] by linarith
  then show ?thesis
    by (simp add: binary64_pos [OF assms])
qed

lemma binary64_nonneg: "0 \<le> x \<Longrightarrow> 0 \<le> binary64 x"
  using binary64_positive [of x] by (cases "x = 0") (simp_all add: less_imp_le)

lemma binary64_le_0_iff: "binary64 x \<le> 0 \<longleftrightarrow> x \<le> 0"
proof (cases "0 < x")
  case True
  then show ?thesis
    using binary64_positive [of x] by simp
next
  case False
  then have "0 \<le> - x"
    by simp
  then have "0 \<le> binary64 (- x)"
    by (rule binary64_nonneg)
  then show ?thesis
    using False by (simp add: binary64_minus)
qed

text \<open>A double is a significand below \<open>2 ^ 53\<close> times a power of two.\<close>

lemma binary64_representable:
  assumes "0 < x"
  shows "\<exists>i k. 0 < i \<and> i < 2 ^ 53 \<and> binary64 x = of_int i * 2 powi k"
proof -
  let ?e = "exponent x"
  let ?m = "round_even (x * 2 powi (52 - ?e))"
  have m: "2 ^ 52 \<le> ?m" "?m \<le> 2 ^ 53"
    using significand_rounded [OF assms] by simp_all
  show ?thesis
  proof (cases "?m = 2 ^ 53")
    case True
    have "binary64 x = of_int (2 ^ 53) * 2 powi (?e - 52)"
      by (simp only: binary64_pos [OF assms] True)
    also have "\<dots> = of_int 1 * 2 powi (?e + 1)"
      by (simp add: power_int_diff power_int_add)
    finally show ?thesis
      by (intro exI [of _ 1] exI [of _ "?e + 1"]) simp
  next
    case False
    moreover have "(0::int) < 2 ^ 52"
      by simp
    ultimately have "?m < 2 ^ 53" "0 < ?m"
      using m by linarith+
    then show ?thesis
      using binary64_pos [OF assms] by blast
  qed
qed

lemma binary64_scale:
  assumes "0 \<le> x"
  shows "binary64 (binary64 x * 2 powi k) = binary64 x * 2 powi k"
proof (cases "x = 0")
  case True
  then show ?thesis by simp
next
  case False
  then have "0 < x"
    using assms by simp
  then obtain i j where i: "0 < i" "i < 2 ^ 53" and x: "binary64 x = of_int i * 2 powi j"
    using binary64_representable by blast
  have "binary64 x * 2 powi k = of_int i * 2 powi (j + k)"
    by (simp add: x power_int_add)
  then show ?thesis
    using binary64_exact [OF i, of "j + k"] by simp
qed

lemma binary64_idem: "0 \<le> x \<Longrightarrow> binary64 (binary64 x) = binary64 x"
  using binary64_scale [of x 0] by simp

lemma binary64_div_1024: "0 \<le> x \<Longrightarrow> binary64 (binary64 x / 1024) = binary64 x / 1024"
  using binary64_scale [of x "- 10"] by (simp add: power_int_minus field_simps)

lemma binary64_of_nat_scale:
  assumes "n < 2 ^ 53"
  shows "binary64 (of_nat n * 2 powi k) = of_nat n * 2 powi k"
  using binary64_scale [of "of_nat n" k] assms by (simp add: binary64_of_nat)

lemma binary64_numeral: "numeral n < (2::nat) ^ 53 \<Longrightarrow> binary64 (numeral n) = numeral n"
  using binary64_of_nat [of "numeral n"] by simp

lemma binary64_1 [simp]: "binary64 1 = 1"
  using binary64_of_nat [of 1] by simp

lemma round_even_numeral [simp]: "round_even (numeral n) = numeral n"
  using round_even_of_int [of "numeral n"] by simp

lemma round_even_eq:
  assumes "of_int k - 1 / 2 < x" and "x < of_int k + 1 / 2"
  shows "round_even x = k"
proof -
  have "\<bar>of_int (round_even x) - x\<bar> \<le> 1 / 2"
    by (rule round_even_error)
  then have "\<bar>(of_int (round_even x) :: rat) - of_int k\<bar> < 1"
    using assms by linarith
  then have "\<bar>round_even x - k\<bar> < 1"
    by (metis of_int_diff of_int_abs of_int_less_iff of_int_1)
  then show ?thesis
    by simp
qed

subsection \<open>Statistics\<close>

lemma Math_min_Min: "Math_min v vs = Min (set (v # vs))"
  unfolding Math_min_def Min.set_eq_fold foldl_conv_fold
  by (simp add: min.commute)

lemma Math_max_Max: "Math_max v vs = Max (set (v # vs))"
  unfolding Math_max_def Max.set_eq_fold foldl_conv_fold
  by (simp add: max.commute)

lemma Min_of_nat:
  assumes "vs \<noteq> []"
  shows "Min (set (map of_nat vs)) = (of_nat (Min (set vs)) :: rat)"
proof -
  have "mono (of_nat :: nat \<Rightarrow> rat)"
    by (simp add: mono_def)
  then have "(of_nat (Min (set vs)) :: rat) = Min (of_nat ` set vs)"
    using assms by (intro mono_Min_commute) simp_all
  then show ?thesis
    by simp
qed

lemma Max_of_nat:
  assumes "vs \<noteq> []"
  shows "Max (set (map of_nat vs)) = (of_nat (Max (set vs)) :: rat)"
proof -
  have "mono (of_nat :: nat \<Rightarrow> rat)"
    by (simp add: mono_def)
  then have "(of_nat (Max (set vs)) :: rat) = Max (of_nat ` set vs)"
    using assms by (intro mono_Max_commute) simp_all
  then show ?thesis
    by simp
qed

lemma or_else_0: "or_else (usedJSHeapSize s) 0 = bytes s"
  by (simp add: or_else_def truthy_def bytes_def split: option.splits)

text \<open>Adding up byte counts is exact as long as the total stays below \<open>2 ^ 53\<close>.\<close>

lemma foldl_plus_exact:
  assumes "a + sum_list vs < 2 ^ 53"
  shows "foldl (\<lambda>sum v. binary64 (sum + v)) (of_nat a) (map of_nat vs) = of_nat (a + sum_list vs)"
  using assms
proof (induction vs arbitrary: a)
  case Nil
  then show ?case by simp
next
  case (Cons v vs)
  have "a + v < 2 ^ 53"
    using Cons.prems by simp
  then have "binary64 (of_nat a + of_nat v) = of_nat (a + v)"
    using binary64_of_nat [of "a + v"] by simp
  then show ?case
    using Cons.IH [of "a + v"] Cons.prems by (simp add: add.assoc)
qed

lemma values_exact:
  assumes "\<forall>s \<in> set ss. bytes s < 2 ^ 53"
  shows "map (\<lambda>s. binary64 (of_nat (or_else (usedJSHeapSize s) 0))) ss = map of_nat (map bytes ss)"
  using assms by (simp add: or_else_0 binary64_of_nat)

text \<open>The conversion of a byte count below \<open>2 ^ 46\<close> rounds once, at its end.\<close>

lemma to_mb_of_nat:
  assumes "v < 2 ^ 46"
  shows "to_mb (of_nat v) = binary64 (of_int (round (mebibytes (of_nat v) * 100)) / 100)"
proof -
  have v: "v < 2 ^ 53"
    using assms by (rule less_trans) simp
  have a: "binary64 (of_nat v / 1024) = of_nat v / 1024"
    using binary64_of_nat_scale [OF v, of "- 10"] by (simp add: power_int_minus field_simps)
  have b: "binary64 (of_nat v / 1024 / 1024) = of_nat v / 1024 / 1024"
    using binary64_of_nat_scale [OF v, of "- 20"] by (simp add: power_int_minus field_simps)
  have "v * 100 < 2 ^ 46 * 100"
    using assms by simp
  then have "v * 100 < 2 ^ 53"
    by (rule less_trans) simp
  then have c: "binary64 (of_nat v / 1024 / 1024 * 100) = of_nat v / 1024 / 1024 * 100"
    using binary64_of_nat_scale [of "v * 100" "- 20"] by (simp add: power_int_minus field_simps)
  show ?thesis
    by (simp only: to_mb_def a b c mebibytes_def)
qed

lemma to_mb_0: "to_mb 0 = 0"
  by (simp add: to_mb_def)

lemma to_mb_binary64:
  assumes "0 \<le> x"
  shows "to_mb (binary64 x) =
    binary64 (of_int (round (binary64 (mebibytes (binary64 x) * 100))) / 100)"
proof -
  have a: "binary64 (binary64 x / 1024) = binary64 x / 1024"
    using assms by (rule binary64_div_1024)
  have "binary64 (binary64 (binary64 x / 1024) / 1024) = binary64 (binary64 x / 1024) / 1024"
    using binary64_nonneg [OF assms] by (intro binary64_div_1024) simp
  then have b: "binary64 (binary64 x / 1024 / 1024) = binary64 x / 1024 / 1024"
    by (simp only: a)
  show ?thesis
    by (simp only: to_mb_def a b mebibytes_def)
qed

lemma to_mb_rounded:
  assumes "v < 2 ^ 46"
  shows "\<exists>r. rounded_2dp (mebibytes (of_nat v)) r \<and> to_mb (of_nat v) = binary64 r"
proof -
  let ?y = "mebibytes (of_nat v) * 100"
  have "\<bar>of_int (round ?y) - ?y\<bar> \<le> 1 / 2"
    by (rule of_int_round_abs_le)
  then have "\<bar>of_int (round ?y) / 100 - mebibytes (of_nat v)\<bar> \<le> 1 / 200"
    by (simp add: abs_le_iff field_simps)
  then have "rounded_2dp (mebibytes (of_nat v)) (of_int (round ?y) / 100)"
    by (simp add: rounded_2dp_def)
  then show ?thesis
    using to_mb_of_nat [OF assms] by blast
qed

text \<open>
  The conversion of a rounded quotient \<open>binary64 x\<close>: the three roundings together move the
  result by less than \<open>2 ^ -18\<close> hundredths.
\<close>

lemma to_mb_nearly_rounded:
  assumes "0 \<le> x" and "x < 2 ^ 46"
  shows "\<exists>r. nearly_rounded_2dp (mebibytes x) r \<and> to_mb (binary64 x) = binary64 r"
proof (cases "x = 0")
  case True
  have "nearly_rounded_2dp (mebibytes 0) 0"
    by (simp add: nearly_rounded_2dp_def mebibytes_def)
  then show ?thesis
    using True to_mb_0 by (intro exI [of _ 0]) simp
next
  case False
  then have pos: "0 < x"
    using assms(1) by simp
  define a where "a = binary64 x"
  define w where "w = mebibytes a * 100"
  define z where "z = binary64 w"
  define k where "k = round z"
  have a: "\<bar>a - x\<bar> \<le> x / 2 ^ 53"
    unfolding a_def using pos by (rule binary64_error)
  have "0 < a"
    unfolding a_def using pos by (rule binary64_positive)
  then have "0 < w"
    by (simp add: w_def mebibytes_def)
  then have z: "\<bar>z - w\<bar> \<le> w / 2 ^ 53"
    unfolding z_def by (rule binary64_error)
  have k: "\<bar>of_int k - z\<bar> \<le> 1 / 2"
    unfolding k_def by (rule of_int_round_abs_le)
  have w: "w = a * 100 / 1048576"
    by (simp add: w_def mebibytes_def)
  have a1: "a \<le> x + x / 2 ^ 53" and a2: "x - x / 2 ^ 53 \<le> a"
    using a unfolding abs_le_iff by linarith+
  have z1: "z \<le> w + w / 2 ^ 53" and z2: "w - w / 2 ^ 53 \<le> z"
    using z unfolding abs_le_iff by linarith+
  have k1: "of_int k \<le> z + 1 / 2" and k2: "z - 1 / 2 \<le> of_int k"
    using k unfolding abs_le_iff by linarith+
  have "of_int k - x * 100 / 1048576 \<le> 1 / 2 + 1 / 2 ^ 18"
    using a1 z1 k1 assms(2) pos unfolding w by simp
  moreover have "x * 100 / 1048576 - of_int k \<le> 1 / 2 + 1 / 2 ^ 18"
    using a2 z2 k2 assms(2) pos unfolding w by simp
  ultimately have "\<bar>of_int k - x * 100 / 1048576\<bar> \<le> 1 / 2 + 1 / 2 ^ 18"
    unfolding abs_le_iff by simp
  then have "\<bar>of_int k / 100 - x / 1048576\<bar> \<le> 1 / 200 + 1 / 100 / 2 ^ 18"
    by (simp add: abs_le_iff field_simps)
  then have "nearly_rounded_2dp (mebibytes x) (of_int k / 100)"
    by (simp add: nearly_rounded_2dp_def mebibytes_def)
  moreover have "to_mb (binary64 x) = binary64 (of_int k / 100)"
    by (simp add: to_mb_binary64 [OF assms(1)] k_def z_def w_def a_def)
  ultimately show ?thesis
    by blast
qed

lemma calculateStats_nonempty:
  assumes "ss \<noteq> []" and "\<forall>s \<in> set ss. bytes s < 2 ^ 53" and "sum_list (map bytes ss) < 2 ^ 53"
  shows "calculateStats (Some ss) =
     \<lparr>min_mb = to_mb (of_nat (Min (set (map bytes ss)))),
      max_mb = to_mb (of_nat (Max (set (map bytes ss)))),
      avg_mb = to_mb (binary64 (mean (map bytes ss))),
      count_n = length ss\<rparr>"
proof -
  obtain s rest where ss: "ss = s # rest"
    using assms(1) by (cases ss) auto
  let ?vs = "map (\<lambda>s. binary64 (of_nat (or_else (usedJSHeapSize s) 0))) ss"
  have vals: "?vs = map of_nat (map bytes ss)"
    using assms(2) by (rule values_exact)
  have "hd ?vs # tl ?vs = ?vs"
    by (simp add: ss)
  then have mn: "Math_min (hd ?vs) (tl ?vs) = of_nat (Min (set (map bytes ss)))"
    and mx: "Math_max (hd ?vs) (tl ?vs) = of_nat (Max (set (map bytes ss)))"
    using assms(1) by (simp_all only: Math_min_Min Math_max_Max vals Min_of_nat Max_of_nat
        map_is_Nil_conv not_False_eq_True)
  have "foldl (\<lambda>sum v. binary64 (sum + v)) (of_nat 0) (map of_nat (map bytes ss))
      = of_nat (0 + sum_list (map bytes ss))"
    using assms(3) by (intro foldl_plus_exact) simp
  then have sum: "foldl (\<lambda>sum v. binary64 (sum + v)) 0 ?vs = of_nat (sum_list (map bytes ss))"
    by (simp only: vals) simp
  have "calculateStats (Some ss) =
     \<lparr>min_mb = to_mb (Math_min (hd ?vs) (tl ?vs)),
      max_mb = to_mb (Math_max (hd ?vs) (tl ?vs)),
      avg_mb = to_mb (binary64 (foldl (\<lambda>sum v. binary64 (sum + v)) 0 ?vs / of_nat (length ?vs))),
      count_n = length ?vs\<rparr>"
    unfolding ss by (simp add: Let_def)
  then show ?thesis
    by (simp only: mn mx sum) (simp add: mean_def)
qed

lemma calculateStats_count: "count_n (calculateStats (Some ss)) = length ss"
  by (cases ss) (simp_all add: no_stats_def Let_def)

text \<open>The least and the greatest value do not depend on the sum.\<close>

lemma calculateStats_min_max:
  assumes "ss \<noteq> []" and "\<forall>s \<in> set ss. bytes s < 2 ^ 53"
  shows "min_mb (calculateStats (Some ss)) = to_mb (of_nat (Min (set (map bytes ss))))"
    and "max_mb (calculateStats (Some ss)) = to_mb (of_nat (Max (set (map bytes ss))))"
proof -
  obtain s rest where ss: "ss = s # rest"
    using assms(1) by (cases ss) auto
  let ?vs = "map (\<lambda>s. binary64 (of_nat (or_else (usedJSHeapSize s) 0))) ss"
  have vals: "?vs = map of_nat (map bytes ss)"
    using assms(2) by (rule values_exact)
  have "hd ?vs # tl ?vs = ?vs"
    by (simp add: ss)
  then have mn: "Math_min (hd ?vs) (tl ?vs) = of_nat (Min (set (map bytes ss)))"
    and mx: "Math_max (hd ?vs) (tl ?vs) = of_nat (Max (set (map bytes ss)))"
    using assms(1) by (simp_all only: Math_min_Min Math_max_Max vals Min_of_nat Max_of_nat
        map_is_Nil_conv not_False_eq_True)
  have "min_mb (calculateStats (Some ss)) = to_mb (Math_min (hd ?vs) (tl ?vs))"
    "max_mb (calculateStats (Some ss)) = to_mb (Math_max (hd ?vs) (tl ?vs))"
    unfolding ss by (simp_all add: Let_def)
  then show "min_mb (calculateStats (Some ss)) = to_mb (of_nat (Min (set (map bytes ss))))"
    and "max_mb (calculateStats (Some ss)) = to_mb (of_nat (Max (set (map bytes ss))))"
    by (simp_all only: mn mx)
qed

lemma sum_list_le_length_times:
  fixes m :: nat
  assumes "\<forall>v \<in> set vs. v \<le> m"
  shows "sum_list vs \<le> length vs * m"
  using assms by (induction vs) auto

lemma mean_less:
  assumes "vs \<noteq> []" and "\<forall>v \<in> set vs. v < b"
  shows "mean vs < of_nat b"
proof -
  have b: "0 < b"
    using assms by (cases vs) auto
  have "\<forall>v \<in> set vs. v \<le> b - 1"
    using assms(2) by fastforce
  then have "sum_list vs \<le> length vs * (b - 1)"
    by (rule sum_list_le_length_times)
  then have "(of_nat (sum_list vs) :: rat) \<le> of_nat (length vs * (b - 1))"
    by (simp only: of_nat_le_iff)
  then have "mean vs \<le> of_nat (b - 1)"
    using assms(1) by (simp add: mean_def field_simps)
  also have "\<dots> < of_nat b"
    using b by simp
  finally show ?thesis .
qed

lemma mean_nonneg: "0 \<le> mean vs"
  by (simp add: mean_def)

lemma less_2_53:
  fixes n :: nat
  assumes "n < 2 ^ 46"
  shows "n < 2 ^ 53"
  using assms by (rule less_trans) simp

lemma calculateStats_min_max_rounded:
  assumes "ss \<noteq> []" and "\<forall>s \<in> set ss. bytes s < 2 ^ 46"
  shows "(\<exists>r. rounded_2dp (mebibytes (of_nat (Min (set (map bytes ss))))) r \<and>
              min_mb (calculateStats (Some ss)) = binary64 r) \<and>
         (\<exists>r. rounded_2dp (mebibytes (of_nat (Max (set (map bytes ss))))) r \<and>
              max_mb (calculateStats (Some ss)) = binary64 r)"
proof -
  let ?vs = "map bytes ss"
  have small: "\<forall>v \<in> set ?vs. v < 2 ^ 46"
    using assms(2) by simp
  have ne: "?vs \<noteq> []"
    using assms(1) by simp
  have "\<forall>s \<in> set ss. bytes s < 2 ^ 53"
    using assms(2) by (auto intro: less_2_53)
  then have st: "min_mb (calculateStats (Some ss)) = to_mb (of_nat (Min (set ?vs)))"
    "max_mb (calculateStats (Some ss)) = to_mb (of_nat (Max (set ?vs)))"
    using assms(1) by (simp_all add: calculateStats_min_max)
  have "Min (set ?vs) \<in> set ?vs" "Max (set ?vs) \<in> set ?vs"
    using ne by (simp_all only: Min_in Max_in List.finite_set set_empty not_False_eq_True)
  then have "Min (set ?vs) < 2 ^ 46" "Max (set ?vs) < 2 ^ 46"
    using small by blast+
  then show ?thesis
    by (simp only: st to_mb_rounded simp_thms)
qed

lemma calculateStats_avg_nearly_rounded:
  assumes "ss \<noteq> []" and "\<forall>s \<in> set ss. bytes s < 2 ^ 46" and "sum_list (map bytes ss) < 2 ^ 53"
  shows "\<exists>r. nearly_rounded_2dp (mebibytes (mean (map bytes ss))) r \<and>
              avg_mb (calculateStats (Some ss)) = binary64 r"
proof -
  let ?vs = "map bytes ss"
  have small: "\<forall>v \<in> set ?vs. v < 2 ^ 46"
    using assms(2) by simp
  have ne: "?vs \<noteq> []"
    using assms(1) by simp
  have "\<forall>s \<in> set ss. bytes s < 2 ^ 53"
    using assms(2) by (auto intro: less_2_53)
  then have st: "avg_mb (calculateStats (Some ss)) = to_mb (binary64 (mean ?vs))"
    using assms(1,3) by (simp add: calculateStats_nonempty)
  have "mean ?vs < of_nat (2 ^ 46)"
    using ne small by (rule mean_less)
  then have "mean ?vs < 2 ^ 46"
    by simp
  then show ?thesis
    unfolding st using mean_nonneg by (intro to_mb_nearly_rounded)
qed

lemma bytes_heap [simp]: "bytes (heap v) = v"
  by (simp add: bytes_def heap_def)

lemma bytes_no_heap [simp]: "bytes no_heap = 0"
  by (simp add: bytes_def no_heap_def)

lemma to_mb_numeral:
  "numeral n < (2::nat) ^ 46 \<Longrightarrow>
   to_mb (numeral n) = binary64 (of_int (round (mebibytes (numeral n) * 100)) / 100)"
  using to_mb_of_nat [of "numeral n"] by simp

text \<open>
  The average of \<open>big\<close>, step by step. The quotient of the sum and the length has the
  binary exponent 31; in mebibytes and times 100 it has the exponent 18 and lies a little
  below 356384.5, which is the nearest double.
\<close>

lemma binary64_mean:
  "binary64 (416230338765783 / 111382) = 7836978034182717 / 2097152"
proof -
  have "round_even (416230338765783 / 111382 * 2 powi (52 - 31)) = 7836978034182717"
    by (rule round_even_eq) simp_all
  moreover have "binary64 (416230338765783 / 111382)
      = of_int (round_even (416230338765783 / 111382 * 2 powi (52 - 31))) * 2 powi (31 - 52)"
    by (rule binary64_at) simp_all
  ultimately show ?thesis
    by (simp add: power_int_minus)
qed

lemma binary64_scaled_mean:
  "binary64 (mebibytes (7836978034182717 / 2097152) * 100) = 712769 / 2"
proof -
  let ?w = "mebibytes (7836978034182717 / 2097152) * 100"
  have "round_even (?w * 2 powi (52 - 18)) = 6122639089205248"
    by (rule round_even_eq) (simp_all add: mebibytes_def)
  moreover have "binary64 ?w = of_int (round_even (?w * 2 powi (52 - 18))) * 2 powi (18 - 52)"
    by (rule binary64_at) (simp_all add: mebibytes_def)
  ultimately show ?thesis
    by (simp add: power_int_minus)
qed

lemma big_stats:
  "length big = 111382" "sum_list (map bytes big) = 416230338765783"
  "mean (map bytes big) = 416230338765783 / 111382"
  by (simp_all add: big_def mean_def sum_list_replicate)

lemma big_avg: "avg_mb (calculateStats (Some big)) = binary64 (356385 / 100)"
proof -
  have "big \<noteq> []" "\<forall>s \<in> set big. bytes s < 2 ^ 53" "sum_list (map bytes big) < 2 ^ 53"
    by (simp_all add: big_stats) (simp add: big_def)+
  then have "avg_mb (calculateStats (Some big)) = to_mb (binary64 (mean (map bytes big)))"
    by (simp add: calculateStats_nonempty)
  also have "\<dots> = to_mb (binary64 (416230338765783 / 111382))"
    by (simp only: big_stats)
  also have "\<dots> = binary64 (of_int (round (binary64
      (mebibytes (binary64 (416230338765783 / 111382)) * 100))) / 100)"
    by (rule to_mb_binary64) simp
  also have "\<dots> = binary64 (of_int (round (712769 / 2 :: rat)) / 100)"
    by (simp only: binary64_mean binary64_scaled_mean)
  also have "round (712769 / 2 :: rat) = 356385"
    by (simp add: round_def)
  finally show ?thesis
    by simp
qed

lemma binary64_hundredths:
  "binary64 (356385 / 100) = 7836989029298995 / 2199023255552"
  "binary64 (356384 / 100) = 7836967039066440 / 2199023255552"
proof -
  have "round_even (356385 / 100 * 2 powi (52 - 11)) = 7836989029298995"
    by (rule round_even_eq) simp_all
  moreover have "binary64 (356385 / 100)
      = of_int (round_even (356385 / 100 * 2 powi (52 - 11))) * 2 powi (11 - 52)"
    by (rule binary64_at) simp_all
  ultimately show "binary64 (356385 / 100) = 7836989029298995 / 2199023255552"
    by (simp add: power_int_minus)
  have "round_even (356384 / 100 * 2 powi (52 - 11)) = 7836967039066440"
    by (rule round_even_eq) simp_all
  moreover have "binary64 (356384 / 100)
      = of_int (round_even (356384 / 100 * 2 powi (52 - 11))) * 2 powi (11 - 52)"
    by (rule binary64_at) simp_all
  ultimately show "binary64 (356384 / 100) = 7836967039066440 / 2199023255552"
    by (simp add: power_int_minus)
qed

text \<open>
  The 111382 samples of \<open>big\<close> have a mean of a little less than 3563.845 MiB, which
  rounded to two decimal places is 3563.84. The quotient of the sum and the length is
  rounded to a double on its way, the product with 100 is the double 356384.5, and
  \<open>avg\<close> is the double of 3563.85.
\<close>

theorem calculateStats_avg_not_rounded:
  "length big = 111382 \<and>
   avg_mb (calculateStats (Some big)) = binary64 (356385 / 100) \<and>
   binary64 (356385 / 100) \<noteq> binary64 (356384 / 100) \<and>
   rounded_2dp (mebibytes (mean (map bytes big))) (356384 / 100) \<and>
   1 / 200 < \<bar>356385 / 100 - mebibytes (mean (map bytes big))\<bar>"
proof -
  have "binary64 (356385 / 100) \<noteq> binary64 (356384 / 100)"
    by (simp only: binary64_hundredths)
  moreover have "rounded_2dp (mebibytes (mean (map bytes big))) (356384 / 100)"
    by (simp add: big_stats rounded_2dp_def mebibytes_def)
  moreover have "1 / 200 < \<bar>356385 / 100 - mebibytes (mean (map bytes big))\<bar>"
    by (simp add: big_stats mebibytes_def)
  ultimately show ?thesis
    using big_avg big_stats(1) by simp
qed

text \<open>
  The average of \<open>near_tie\<close>. The mean is 602931.2 bytes, which is 0.575 MiB; the nearest
  double is below it, and so is the double of its product with 100 in mebibytes, which
  \<^verbatim>\<open>Math.round\<close> takes to 57.
\<close>

lemma binary64_near_tie_mean: "binary64 (3014656 / 5) = 2589569785738035 / 4294967296"
proof -
  have "round_even (3014656 / 5 * 2 powi (52 - 19)) = 5179139571476070"
    by (rule round_even_eq) simp_all
  moreover have "binary64 (3014656 / 5)
      = of_int (round_even (3014656 / 5 * 2 powi (52 - 19))) * 2 powi (19 - 52)"
    by (rule binary64_at) simp_all
  ultimately show ?thesis
    by (simp add: power_int_minus)
qed

lemma binary64_near_tie_scaled:
  "binary64 (mebibytes (2589569785738035 / 4294967296) * 100)
     = 8092405580431359 / 140737488355328"
proof -
  let ?w = "mebibytes (2589569785738035 / 4294967296) * 100"
  have "round_even (?w * 2 powi (52 - 5)) = 8092405580431359"
    by (rule round_even_eq) (simp_all add: mebibytes_def)
  moreover have "binary64 ?w = of_int (round_even (?w * 2 powi (52 - 5))) * 2 powi (5 - 52)"
    by (rule binary64_at) (simp_all add: mebibytes_def)
  ultimately show ?thesis
    by (simp add: power_int_minus)
qed

lemma near_tie_stats:
  "calculateStats (Some near_tie) =
     \<lparr>min_mb = binary64 (57 / 100), max_mb = binary64 (58 / 100),
      avg_mb = binary64 (57 / 100), count_n = 5\<rparr>"
proof -
  have vs: "map bytes near_tie = [602931, 602931, 602931, 602931, 602932]"
    by (simp add: near_tie_def)
  have "near_tie \<noteq> []" "\<forall>s \<in> set near_tie. bytes s < 2 ^ 53"
    "sum_list (map bytes near_tie) < 2 ^ 53"
    by (simp_all add: near_tie_def)
  then have "calculateStats (Some near_tie) =
     \<lparr>min_mb = to_mb (of_nat (Min (set (map bytes near_tie)))),
      max_mb = to_mb (of_nat (Max (set (map bytes near_tie)))),
      avg_mb = to_mb (binary64 (mean (map bytes near_tie))),
      count_n = length near_tie\<rparr>"
    by (rule calculateStats_nonempty)
  also have "\<dots> = \<lparr>min_mb = to_mb 602931, max_mb = to_mb 602932,
      avg_mb = to_mb (binary64 (3014656 / 5)), count_n = 5\<rparr>"
    unfolding vs by (simp add: mean_def) (simp add: near_tie_def)
  finally have st: "calculateStats (Some near_tie) =
     \<lparr>min_mb = to_mb 602931, max_mb = to_mb 602932,
      avg_mb = to_mb (binary64 (3014656 / 5)), count_n = 5\<rparr>" .
  have "round (mebibytes 602931 * 100) = 57" "round (mebibytes 602932 * 100) = 58"
    by (rule round_unique; simp add: mebibytes_def)+
  then have mn: "to_mb 602931 = binary64 (57 / 100)"
    and mx: "to_mb 602932 = binary64 (58 / 100)"
    by (simp_all add: to_mb_numeral)
  have "to_mb (binary64 (3014656 / 5)) = binary64 (of_int (round (binary64
      (mebibytes (binary64 (3014656 / 5)) * 100))) / 100)"
    by (rule to_mb_binary64) simp
  also have "\<dots> = binary64 (of_int (round (8092405580431359 / 140737488355328 :: rat)) / 100)"
    by (simp only: binary64_near_tie_mean binary64_near_tie_scaled)
  also have "round (8092405580431359 / 140737488355328 :: rat) = 57"
    by (rule round_unique) simp_all
  finally have avg: "to_mb (binary64 (3014656 / 5)) = binary64 (57 / 100)"
    by simp
  show ?thesis
    by (simp only: st mn mx avg)
qed

text \<open>
  C2, as the code has it. \<^verbatim>\<open>calculateStats\<close> answers zeros for an absent or empty
  sequence, and \<open>count\<close> is the length of the sequence. \<open>min\<close>, \<open>max\<close> and \<open>avg\<close> are
  doubles of multiples of one hundredth. For a non-empty sequence whose heap sizes (0 for
  a sample without one) are below \<open>2 ^ 46\<close> bytes, \<open>min\<close> and \<open>max\<close> are those of the
  minimum and the maximum in mebibytes rounded to two decimal places; when the heap sizes
  also add up to less than \<open>2 ^ 53\<close>, \<open>avg\<close> is that of a hundredth at most half a
  hundredth and \<open>2 ^ -18\<close> hundredths away from the arithmetic mean in mebibytes. Heap
  sizes of 1, 2 and 3 MiB give \<open>min = 1\<close>, \<open>max = 3\<close>, \<open>avg = 2\<close>, \<open>count = 3\<close>.
\<close>

theorem calculateStats_min_max_avg_count:
  "calculateStats None = \<lparr>min_mb = 0, max_mb = 0, avg_mb = 0, count_n = 0\<rparr> \<and>
   calculateStats (Some []) = \<lparr>min_mb = 0, max_mb = 0, avg_mb = 0, count_n = 0\<rparr> \<and>
   count_n (calculateStats (Some ss)) = length ss \<and>
   (ss \<noteq> [] \<and> (\<forall>s \<in> set ss. bytes s < 2 ^ 46) \<longrightarrow>
      (\<exists>r. rounded_2dp (mebibytes (of_nat (Min (set (map bytes ss))))) r \<and>
           min_mb (calculateStats (Some ss)) = binary64 r) \<and>
      (\<exists>r. rounded_2dp (mebibytes (of_nat (Max (set (map bytes ss))))) r \<and>
           max_mb (calculateStats (Some ss)) = binary64 r)) \<and>
   (ss \<noteq> [] \<and> (\<forall>s \<in> set ss. bytes s < 2 ^ 46) \<and> sum_list (map bytes ss) < 2 ^ 53 \<longrightarrow>
      (\<exists>r. nearly_rounded_2dp (mebibytes (mean (map bytes ss))) r \<and>
           avg_mb (calculateStats (Some ss)) = binary64 r)) \<and>
   calculateStats (Some [heap 1048576, heap 2097152, heap 3145728]) =
     \<lparr>min_mb = 1, max_mb = 3, avg_mb = 2, count_n = 3\<rparr>"
proof -
  let ?ex = "[heap 1048576, heap 2097152, heap 3145728]"
  have "?ex \<noteq> []" "\<forall>s \<in> set ?ex. bytes s < 2 ^ 53" "sum_list (map bytes ?ex) < 2 ^ 53"
    by simp_all
  then have "calculateStats (Some ?ex) =
     \<lparr>min_mb = to_mb (of_nat (Min (set (map bytes ?ex)))),
      max_mb = to_mb (of_nat (Max (set (map bytes ?ex)))),
      avg_mb = to_mb (binary64 (mean (map bytes ?ex))),
      count_n = length ?ex\<rparr>"
    by (rule calculateStats_nonempty)
  then have example: "calculateStats (Some ?ex) =
     \<lparr>min_mb = 1, max_mb = 3, avg_mb = 2, count_n = 3\<rparr>"
    by (simp add: mean_def binary64_numeral to_mb_numeral mebibytes_def)
  show ?thesis
    using calculateStats_min_max_rounded [of ss] calculateStats_avg_nearly_rounded [of ss]
      calculateStats_count [of ss] example
    by (simp add: no_stats_def)
qed

theorem calculateStats_min_max_avg_count_witness:
  "near_tie \<noteq> [] \<and> bytes (heap 602931) < 2 ^ 46 \<and> bytes (heap 602932) < 2 ^ 46 \<and>
   sum_list (map bytes near_tie) < 2 ^ 53 \<and>
   (\<exists>r. rounded_2dp (mebibytes (of_nat (Min (set (map bytes near_tie))))) r \<and>
        min_mb (calculateStats (Some near_tie)) = binary64 r) \<and>
   (\<exists>r. rounded_2dp (mebibytes (of_nat (Max (set (map bytes near_tie))))) r \<and>
        max_mb (calculateStats (Some near_tie)) = binary64 r) \<and>
   (\<exists>r. nearly_rounded_2dp (mebibytes (mean (map bytes near_tie))) r \<and>
        avg_mb (calculateStats (Some near_tie)) = binary64 r) \<and>
   mebibytes (mean (map bytes near_tie)) = 575 / 1000 \<and>
   calculateStats (Some near_tie) =
     \<lparr>min_mb = binary64 (57 / 100), max_mb = binary64 (58 / 100),
      avg_mb = binary64 (57 / 100), count_n = 5\<rparr>"
proof -
  have mean: "mebibytes (mean (map bytes near_tie)) = 575 / 1000"
    by (simp add: near_tie_def mean_def mebibytes_def)
  have small: "bytes (heap 602931) < 2 ^ 46" "bytes (heap 602932) < 2 ^ 46"
    by simp_all
  then have hyps: "near_tie \<noteq> []" "\<forall>s \<in> set near_tie. bytes s < 2 ^ 46"
    "sum_list (map bytes near_tie) < 2 ^ 53"
    by (simp_all add: near_tie_def)
  then show ?thesis
    using calculateStats_min_max_avg_count [of near_tie] small mean near_tie_stats by blast
qed

text \<open>
  C10. A sample whose \<^verbatim>\<open>usedJSHeapSize\<close> is missing, \<^verbatim>\<open>null\<close> or 0 counts as 0 bytes and
  is not skipped: the minimum is 0, the average is the sum of the heap sizes, with 0 for
  this sample, divided by the whole length, and \<open>count\<close> is the whole length. The sum and
  the quotient are those of doubles; where the heap sizes are below \<open>2 ^ 46\<close> bytes and
  add up to less than \<open>2 ^ 53\<close>, the average is within half a hundredth and \<open>2 ^ -18\<close>
  hundredths of the exact quotient in mebibytes.
\<close>

theorem calculateStats_missing_counts_as_zero:
  assumes "s \<in> set ss" and "\<not> truthy (usedJSHeapSize s)"
  shows "min_mb (calculateStats (Some ss)) = 0 \<and>
         avg_mb (calculateStats (Some ss)) =
           to_mb (binary64 (foldl (\<lambda>sum v. binary64 (sum + v)) 0
                              (map (\<lambda>s. binary64 (of_nat (bytes s))) ss)
                            / of_nat (length ss))) \<and>
         ((\<forall>s \<in> set ss. bytes s < 2 ^ 46) \<and> sum_list (map bytes ss) < 2 ^ 53 \<longrightarrow>
            (\<exists>r. nearly_rounded_2dp
                   (mebibytes (of_nat (sum_list (map bytes ss)) / of_nat (length ss))) r \<and>
                 avg_mb (calculateStats (Some ss)) = binary64 r)) \<and>
         count_n (calculateStats (Some ss)) = length ss"
proof -
  let ?vs = "map (\<lambda>s. binary64 (of_nat (or_else (usedJSHeapSize s) 0))) ss"
  obtain x rest where ss: "ss = x # rest"
    using assms(1) by (cases ss) auto
  have st: "calculateStats (Some ss) =
     \<lparr>min_mb = to_mb (Min (set ?vs)),
      max_mb = to_mb (Max (set ?vs)),
      avg_mb = to_mb (binary64 (foldl (\<lambda>sum v. binary64 (sum + v)) 0 ?vs / of_nat (length ss))),
      count_n = length ss\<rparr>"
    unfolding ss by (simp add: Let_def Math_min_Min Math_max_Max)
  have "or_else (usedJSHeapSize s) 0 = 0"
    using assms(2) by (simp add: or_else_def)
  then have "binary64 (of_nat (or_else (usedJSHeapSize s) 0)) = 0"
    by simp
  then have "0 \<in> set ?vs"
    using assms(1) by force
  moreover have "\<forall>v \<in> set ?vs. 0 \<le> v"
    by (auto intro: binary64_nonneg)
  ultimately have "Min (set ?vs) = 0"
    by (intro Min_eqI) auto
  then have "min_mb (calculateStats (Some ss)) = 0"
    by (simp add: st to_mb_0)
  moreover have "avg_mb (calculateStats (Some ss)) =
           to_mb (binary64 (foldl (\<lambda>sum v. binary64 (sum + v)) 0
                              (map (\<lambda>s. binary64 (of_nat (bytes s))) ss)
                            / of_nat (length ss)))"
    by (simp add: st or_else_0)
  moreover have "\<exists>r. nearly_rounded_2dp
                   (mebibytes (of_nat (sum_list (map bytes ss)) / of_nat (length ss))) r \<and>
                 avg_mb (calculateStats (Some ss)) = binary64 r"
    if "\<forall>s \<in> set ss. bytes s < 2 ^ 46" "sum_list (map bytes ss) < 2 ^ 53"
    using calculateStats_avg_nearly_rounded [of ss] that ss by (simp add: mean_def)
  moreover have "count_n (calculateStats (Some ss)) = length ss"
    by (simp add: st)
  ultimately show ?thesis
    by blast
qed

theorem calculateStats_missing_counts_as_zero_witness:
  "no_heap \<in> set [heap 2097152, no_heap] \<and> \<not> truthy (usedJSHeapSize no_heap) \<and>
   min_mb (calculateStats (Some [heap 2097152, no_heap])) = 0 \<and>
   avg_mb (calculateStats (Some [heap 2097152, no_heap])) = 1 \<and>
   count_n (calculateStats (Some [heap 2097152, no_heap])) = 2 \<and>
   bytes (heap 2097152) < 2 ^ 46 \<and> bytes no_heap < 2 ^ 46 \<and>
   sum_list (map bytes [heap 2097152, no_heap]) < 2 ^ 53 \<and>
   (\<exists>r. nearly_rounded_2dp
          (mebibytes (of_nat (sum_list (map bytes [heap 2097152, no_heap]))
                      / of_nat (length [heap 2097152, no_heap]))) r \<and>
        avg_mb (calculateStats (Some [heap 2097152, no_heap])) = binary64 r)"
proof -
  let ?ex = "[heap 2097152, no_heap]"
  have small: "bytes (heap 2097152) < 2 ^ 46" "bytes no_heap < 2 ^ 46"
    "sum_list (map bytes ?ex) < 2 ^ 53"
    by simp_all
  then have bounds: "\<forall>s \<in> set ?ex. bytes s < 2 ^ 46"
    by simp
  have "?ex \<noteq> []" "\<forall>s \<in> set ?ex. bytes s < 2 ^ 53" "sum_list (map bytes ?ex) < 2 ^ 53"
    by simp_all
  then have "calculateStats (Some ?ex) =
     \<lparr>min_mb = to_mb (of_nat (Min (set (map bytes ?ex)))),
      max_mb = to_mb (of_nat (Max (set (map bytes ?ex)))),
      avg_mb = to_mb (binary64 (mean (map bytes ?ex))),
      count_n = length ?ex\<rparr>"
    by (rule calculateStats_nonempty)
  then have avg: "avg_mb (calculateStats (Some ?ex)) = 1"
    by (simp add: mean_def binary64_numeral to_mb_numeral mebibytes_def)
  have mem: "no_heap \<in> set ?ex" and falsy: "\<not> truthy (usedJSHeapSize no_heap)"
    by (simp_all add: no_heap_def truthy_def)
  have len: "length ?ex = 2"
    by simp
  have "min_mb (calculateStats (Some ?ex)) = 0" "count_n (calculateStats (Some ?ex)) = length ?ex"
    "\<exists>r. nearly_rounded_2dp
          (mebibytes (of_nat (sum_list (map bytes ?ex)) / of_nat (length ?ex))) r \<and>
        avg_mb (calculateStats (Some ?ex)) = binary64 r"
    using calculateStats_missing_counts_as_zero [OF mem falsy] bounds small(3) by blast+
  then show ?thesis
    using mem falsy avg small by (simp only: len) blast
qed

subsection \<open>Aggregation over a spec\<close>

lemma foldl_append_concat: "foldl (\<lambda>all td. all @ f td) acc tds = acc @ concat (map f tds)"
  by (induction tds arbitrary: acc) simp_all

text \<open>
  C3. \<^verbatim>\<open>aggregateSpecStats\<close> is \<^verbatim>\<open>calculateStats\<close> of one sequence: the samples of
  every test under the spec, test after test, followed by the direct samples of the
  spec. For one test with the samples \<open>[x]\<close> and the direct samples \<open>[y]\<close> this is
  \<^verbatim>\<open>calculateStats\<close> of \<open>[x, y]\<close>.
\<close>

theorem aggregateSpecStats_concat:
  "aggregateSpecStats specData =
     calculateStats
       (Some (concat (map (\<lambda>e. tn_samples (snd e)) (sp_tests specData)) @ sp_samples specData)) \<and>
   aggregateSpecStats (spec_of [(t, [x])] [y]) = calculateStats (Some [x, y])"
proof -
  have general: "aggregateSpecStats sd =
     calculateStats (Some (concat (map (\<lambda>e. tn_samples (snd e)) (sp_tests sd)) @ sp_samples sd))"
    for sd
    by (simp add: aggregateSpecStats_def Object_values_def foldl_append_concat Let_def comp_def)
  show ?thesis
    by (simp add: general) (simp add: spec_of_def)
qed

subsection \<open>The peak test of a spec\<close>

lemma peak_step_pair:
  "peak_step (n, m) (t, td) = (if m < peak_of td then (t, peak_of td) else (n, m))"
  by (simp add: peak_step_def peak_of_def Let_def)

lemma findMaxMemoryTest_foldl: "findMaxMemoryTest sd = foldl peak_step ('''', 0) (sp_tests sd)"
  by (simp add: findMaxMemoryTest_def peak_step_def)

text \<open>
  The loop either has seen no positive maximum and still holds its initial pair, or
  holds the first test that reaches the greatest maximum.
\<close>

lemma peak_loop:
  "(\<forall>(t, td) \<in> set ts. peak_of td \<le> 0) \<and> foldl peak_step ('''', 0) ts = ('''', 0) \<or>
   (\<exists>pre t td post. ts = pre @ (t, td) # post \<and> 0 < peak_of td \<and>
        (\<forall>(t', td') \<in> set pre. peak_of td' < peak_of td) \<and>
        (\<forall>(t', td') \<in> set post. peak_of td' \<le> peak_of td) \<and>
        foldl peak_step ('''', 0) ts = (t, peak_of td))"
proof (induction ts rule: rev_induct)
  case Nil
  then show ?case by simp
next
  case (snoc e ts)
  obtain u ud where e: "e = (u, ud)" by (cases e)
  from snoc show ?case
  proof (elim disjE conjE exE)
    assume low: "\<forall>(t, td) \<in> set ts. peak_of td \<le> 0"
      and res: "foldl peak_step ('''', 0) ts = ('''', 0)"
    show ?thesis
    proof (cases "0 < peak_of ud")
      case True
      have "foldl peak_step ('''', 0) (ts @ [e]) = (u, peak_of ud)"
        using True by (simp add: res e peak_step_pair)
      moreover have "\<forall>(t', td') \<in> set ts. peak_of td' < peak_of ud"
        using low True by fastforce
      ultimately show ?thesis
        using True e by (intro disjI2 exI [of _ ts] exI [of _ u] exI [of _ ud] exI [of _ "[]"]) simp
    next
      case False
      have "foldl peak_step ('''', 0) (ts @ [e]) = ('''', 0)"
        using False by (simp add: res e peak_step_pair)
      then show ?thesis
        using low False e by auto
    qed
  next
    fix pre t td post
    assume ts: "ts = pre @ (t, td) # post" and pos: "0 < peak_of td"
      and pre: "\<forall>(t', td') \<in> set pre. peak_of td' < peak_of td"
      and post: "\<forall>(t', td') \<in> set post. peak_of td' \<le> peak_of td"
      and res: "foldl peak_step ('''', 0) ts = (t, peak_of td)"
    show ?thesis
    proof (cases "peak_of td < peak_of ud")
      case True
      have "foldl peak_step ('''', 0) (ts @ [e]) = (u, peak_of ud)"
        using True by (simp add: res e peak_step_pair)
      moreover have "\<forall>(t', td') \<in> set ts. peak_of td' < peak_of ud"
        using pre post True unfolding ts by fastforce
      moreover have "0 < peak_of ud"
        using pos True by simp
      ultimately show ?thesis
        using e by (intro disjI2 exI [of _ ts] exI [of _ u] exI [of _ ud] exI [of _ "[]"]) simp
    next
      case False
      have "foldl peak_step ('''', 0) (ts @ [e]) = (t, peak_of td)"
        using False by (simp add: res e peak_step_pair)
      moreover have "\<forall>(t', td') \<in> set (post @ [e]). peak_of td' \<le> peak_of td"
        using post False e by auto
      ultimately show ?thesis
        using pos pre ts
        by (intro disjI2 exI [of _ pre] exI [of _ t] exI [of _ td] exI [of _ "post @ [e]"]) simp
    qed
  qed
qed

text \<open>
  C4, as the code has it. When some test of the spec has a \<open>max\<close> figure above 0,
  \<^verbatim>\<open>findMaxMemoryTest\<close> returns the first test, in the order of enumeration, whose \<open>max\<close>
  figure is the greatest, with that figure: every test before it is strictly below, no
  test after it is above. It returns the empty name with 0 exactly when no test has a
  \<open>max\<close> figure above 0, which includes the spec without tests.
\<close>

theorem findMaxMemoryTest_first_greatest:
  "(sp_tests sd = [] \<longrightarrow> findMaxMemoryTest sd = ('''', 0)) \<and>
   (findMaxMemoryTest sd = ('''', 0) \<longleftrightarrow> (\<forall>e \<in> set (sp_tests sd). peak_of (snd e) \<le> 0)) \<and>
   ((\<exists>e \<in> set (sp_tests sd). 0 < peak_of (snd e)) \<longrightarrow>
      (\<exists>pre t td post. sp_tests sd = pre @ (t, td) # post \<and>
         (\<forall>e \<in> set pre. peak_of (snd e) < peak_of td) \<and>
         (\<forall>e \<in> set post. peak_of (snd e) \<le> peak_of td) \<and>
         findMaxMemoryTest sd = (t, peak_of td)))"
proof -
  let ?low = "\<forall>e \<in> set (sp_tests sd). peak_of (snd e) \<le> 0"
  consider (zero) "?low" "findMaxMemoryTest sd = ('''', 0)"
    | (peak) pre t td post where "sp_tests sd = pre @ (t, td) # post" "0 < peak_of td"
        "\<forall>e \<in> set pre. peak_of (snd e) < peak_of td"
        "\<forall>e \<in> set post. peak_of (snd e) \<le> peak_of td"
        "findMaxMemoryTest sd = (t, peak_of td)"
    using peak_loop [of "sp_tests sd"]
    unfolding findMaxMemoryTest_foldl by (auto simp: case_prod_unfold)
  then show ?thesis
  proof cases
    case zero
    then show ?thesis
      by (auto simp: not_less [symmetric])
  next
    case peak
    have "\<not> ?low"
      using peak(1,2) by (auto simp: not_le)
    moreover have "findMaxMemoryTest sd \<noteq> ('''', 0)"
      using peak(2,5) by simp
    moreover have "sp_tests sd \<noteq> []"
      using peak(1) by simp
    ultimately show ?thesis
      using peak by blast
  qed
qed

lemma findMaxMemoryTest_tied: "findMaxMemoryTest tied = (''b'', 3)"
  by (simp add: tied_def spec_of_def findMaxMemoryTest_def mib_def heap_def or_else_def
      truthy_def Math_max_def Math_min_def to_mb_def binary64_numeral)

theorem findMaxMemoryTest_first_greatest_witness:
  "sp_tests tied \<noteq> [] \<and> findMaxMemoryTest tied = (''b'', 3) \<and>
   \<not> (\<forall>e \<in> set (sp_tests tied). peak_of (snd e) \<le> 0)"
  using findMaxMemoryTest_first_greatest [of tied] findMaxMemoryTest_tied
  by (simp add: tied_def spec_of_def)

text \<open>
  The spec \<open>tiny\<close> has a test, and \<^verbatim>\<open>findMaxMemoryTest\<close> returns the empty name with 0:
  1024 bytes are 0.00 MiB, which is not above the initial 0.
\<close>

theorem findMaxMemoryTest_empty_name_with_tests:
  "sp_tests tiny \<noteq> [] \<and> findMaxMemoryTest tiny = ('''', 0)"
proof -
  have "round (mebibytes 1024 * 100) = 0"
    by (rule round_unique) (simp_all add: mebibytes_def)
  then have "to_mb 1024 = 0"
    by (simp add: to_mb_numeral)
  then show ?thesis
    by (simp add: tiny_def spec_of_def findMaxMemoryTest_def heap_def or_else_def truthy_def
        Math_max_def Math_min_def binary64_numeral)
qed

subsection \<open>The order of the reports\<close>

lemma insert_cmp_insort_key:
  assumes "\<And>x y. cmp x y \<le> 0 \<longleftrightarrow> f x \<le> f y"
  shows "insert_cmp cmp x ys = insort_key f x ys"
  by (induction ys) (simp_all add: assms)

lemma Array_sort_sort_key:
  assumes "\<And>x y. cmp x y \<le> 0 \<longleftrightarrow> f x \<le> f y"
  shows "Array_sort cmp xs = sort_key f xs"
proof -
  have "insert_cmp cmp = insort_key f"
    using insert_cmp_insort_key [OF assms] by (intro ext)
  then show ?thesis
    by (simp add: Array_sort_def sort_key_def)
qed

lemma sort_key_descending:
  fixes f :: "'a \<Rightarrow> rat"
  shows "sorted_wrt (\<lambda>a b. f b \<le> f a) (sort_key (\<lambda>x. - f x) xs)"
proof -
  have "sorted (map (\<lambda>x. - f x) (sort_key (\<lambda>x. - f x) xs))"
    by (rule sorted_sort_key)
  then show ?thesis
    by (simp add: sorted_map)
qed

lemma sort_key_neg_stable:
  fixes f :: "'a \<Rightarrow> rat"
  shows "filter (\<lambda>y. f y = m) (sort_key (\<lambda>x. - f x) xs) = filter (\<lambda>y. f y = m) xs"
  using sort_key_stable [of "\<lambda>x. - f x" "- m" xs] by simp

lemma spec_sort: "Array_sort spec_cmp xs = sort_key (\<lambda>e. - agg_max e) xs"
  by (rule Array_sort_sort_key) (simp add: spec_cmp_def agg_max_def binary64_le_0_iff)

lemma test_sort: "Array_sort test_cmp xs = sort_key (\<lambda>td. - test_max td) xs"
  by (rule Array_sort_sort_key) (simp add: test_cmp_def test_max_def binary64_le_0_iff)

lemma three_specs_rows: "row_maxes (generateSpecReport three_specs) = [5, 3, 1]"
  by (simp add: generateSpecReport_def three_specs_def spec_of_def mib_def heap_def
      Array_sort_def spec_cmp_def aggregateSpecStats_def Object_values_def
      or_else_def truthy_def Math_max_def Math_min_def to_mb_def
      row_maxes_def List.map_filter_simps row_max_def spec_row_def
      binary64_numeral binary64_minus)

lemma row_maxes_simps:
  "row_maxes [] = []"
  "row_maxes (SpecHeading # out) = row_maxes out"
  "row_maxes (TestHeading # out) = row_maxes out"
  "row_maxes (Rule # out) = row_maxes out"
  "row_maxes (SpecColumns # out) = row_maxes out"
  "row_maxes (TestColumns # out) = row_maxes out"
  "row_maxes (MoreTests n # out) = row_maxes out"
  "row_maxes (SpecRow a b c mx d e # out) = mx # row_maxes out"
  "row_maxes (TestRow f g h i mx j # out) = mx # row_maxes out"
  by (simp_all add: row_maxes_def row_max_def)

lemma row_names_simps:
  "row_names [] = []"
  "row_names (SpecHeading # out) = row_names out"
  "row_names (TestHeading # out) = row_names out"
  "row_names (Rule # out) = row_names out"
  "row_names (SpecColumns # out) = row_names out"
  "row_names (TestColumns # out) = row_names out"
  "row_names (MoreTests n # out) = row_names out"
  "row_names (SpecRow a b c mx d e # out) = a # row_names out"
  "row_names (TestRow f g h i mx j # out) = f # row_names out"
  by (simp_all add: row_names_def row_name_def)

lemma row_maxes_append: "row_maxes (xs @ ys) = row_maxes xs @ row_maxes ys"
  by (simp add: row_maxes_def List.map_filter_def)

lemma row_names_append: "row_names (xs @ ys) = row_names xs @ row_names ys"
  by (simp add: row_names_def List.map_filter_def)

lemma row_maxes_test_rows: "row_maxes (map test_row tds) = map test_max tds"
  by (induction tds) (simp_all add: row_maxes_simps test_row_def test_max_def Let_def)

lemma row_maxes_spec_rows: "row_maxes (map spec_row es) = map agg_max es"
  by (induction es) (simp_all add: row_maxes_simps spec_row_def agg_max_def Let_def)

lemma row_names_spec_rows: "row_names (map spec_row es) = map (\<lambda>e. padEnd 48 (fst e)) es"
  by (induction es) (simp_all add: row_names_simps spec_row_def Let_def)

lemma sorted_wrt_take: "sorted_wrt P xs \<Longrightarrow> sorted_wrt P (take n xs)"
  by (metis append_take_drop_id sorted_wrt_append)

lemma obj_add_plain: "\<not> is_array_index k \<Longrightarrow> obj_add k v obj = obj @ [(k, v)]"
  by (simp add: obj_add_def)

lemma obj_add_keeps_order:
  assumes "map_of obj k = None"
  shows "filter (\<lambda>e. fst e \<noteq> k) (obj_add k v obj) = obj"
proof -
  have all: "filter (\<lambda>e. fst e \<noteq> k) xs = xs" if "set xs \<subseteq> set obj" for xs
  proof -
    have "\<forall>e \<in> set xs. fst e \<noteq> k"
      using assms that by (metis (no_types, opaque_lifting) map_of_eq_None_iff image_eqI subsetD)
    then show ?thesis
      by simp
  qed
  have "set (takeWhile P obj) \<subseteq> set obj" "set (dropWhile P obj) \<subseteq> set obj" for P
    by (auto dest: set_takeWhileD set_dropWhileD)
  then show ?thesis
    by (simp add: obj_add_def Let_def all)
qed

lemma three_specs_maxes: "map agg_max three_specs = [5, 1, 3]"
  by (simp add: three_specs_def spec_of_def mib_def heap_def agg_max_def
      aggregateSpecStats_def Object_values_def or_else_def truthy_def Math_max_def
      Math_min_def to_mb_def binary64_numeral)

lemma generateSpecReport_names:
  "row_names (generateSpecReport xs) = map (\<lambda>e. padEnd 48 (fst e)) (Array_sort spec_cmp xs)"
  by (simp add: generateSpecReport_def row_names_append row_names_spec_rows row_names_simps)

lemma generateSpecReport_maxes:
  "row_maxes (generateSpecReport xs) = map agg_max (Array_sort spec_cmp xs)"
  by (simp add: generateSpecReport_def row_maxes_append row_maxes_spec_rows row_maxes_simps)

text \<open>
  C9, as the code has it. Between its heading and its closing rule the spec report has
  one row per spec; the rows are a rearrangement of the entries of \<^verbatim>\<open>specs\<close>, in
  descending order of the \<open>max\<close> figure of \<^verbatim>\<open>aggregateSpecStats\<close>, and the specs with the
  same \<open>max\<close> figure keep the order in which the object enumerates them. A new key
  leaves the order of the other keys as it is, and is enumerated last when it is not an
  array index. Specs with the maxima 5, 1 and 3 MiB are listed as 5, 3, 1.
\<close>

theorem generateSpecReport_descending_stable:
  "(\<exists>rows. mset rows = mset specs_obj \<and>
          sorted_wrt (\<lambda>a b. agg_max b \<le> agg_max a) rows \<and>
          (\<forall>m. filter (\<lambda>e. agg_max e = m) rows = filter (\<lambda>e. agg_max e = m) specs_obj) \<and>
          generateSpecReport specs_obj =
            [SpecHeading, Rule, SpecColumns, Rule] @ map spec_row rows @ [Rule] \<and>
          row_names (generateSpecReport specs_obj) = map (\<lambda>e. padEnd 48 (fst e)) rows \<and>
          row_maxes (generateSpecReport specs_obj) = map agg_max rows \<and>
          sorted_wrt (\<lambda>a b. b \<le> a) (row_maxes (generateSpecReport specs_obj))) \<and>
   (\<not> is_array_index k \<longrightarrow> obj_add k sr specs_obj = specs_obj @ [(k, sr)]) \<and>
   (map_of specs_obj k = None \<longrightarrow> filter (\<lambda>e. fst e \<noteq> k) (obj_add k sr specs_obj) = specs_obj) \<and>
   map agg_max three_specs = [5, 1, 3] \<and>
   row_maxes (generateSpecReport three_specs) = [5, 3, 1]"
proof -
  let ?rows = "Array_sort spec_cmp specs_obj"
  let ?out = "generateSpecReport specs_obj"
  have out: "?out = [SpecHeading, Rule, SpecColumns, Rule] @ map spec_row ?rows @ [Rule]"
    by (simp add: generateSpecReport_def)
  have perm: "mset ?rows = mset specs_obj"
    by (simp add: spec_sort)
  have desc: "sorted_wrt (\<lambda>a b. agg_max b \<le> agg_max a) ?rows"
    unfolding spec_sort by (rule sort_key_descending)
  have stable: "\<forall>m. filter (\<lambda>e. agg_max e = m) ?rows = filter (\<lambda>e. agg_max e = m) specs_obj"
    unfolding spec_sort by (simp add: sort_key_neg_stable)
  have names: "row_names ?out = map (\<lambda>e. padEnd 48 (fst e)) ?rows"
    by (rule generateSpecReport_names)
  have maxes: "row_maxes ?out = map agg_max ?rows"
    by (rule generateSpecReport_maxes)
  have emitted: "sorted_wrt (\<lambda>a b. b \<le> a) (row_maxes ?out)"
    using desc by (simp add: maxes sorted_wrt_map)
  have "\<exists>rows. mset rows = mset specs_obj \<and>
          sorted_wrt (\<lambda>a b. agg_max b \<le> agg_max a) rows \<and>
          (\<forall>m. filter (\<lambda>e. agg_max e = m) rows = filter (\<lambda>e. agg_max e = m) specs_obj) \<and>
          generateSpecReport specs_obj =
            [SpecHeading, Rule, SpecColumns, Rule] @ map spec_row rows @ [Rule] \<and>
          row_names (generateSpecReport specs_obj) = map (\<lambda>e. padEnd 48 (fst e)) rows \<and>
          row_maxes (generateSpecReport specs_obj) = map agg_max rows \<and>
          sorted_wrt (\<lambda>a b. b \<le> a) (row_maxes (generateSpecReport specs_obj))"
    using out perm desc stable names maxes emitted by blast
  then show ?thesis
    using obj_add_plain [of k sr specs_obj] obj_add_keeps_order [of specs_obj k sr]
      three_specs_maxes three_specs_rows
    by blast
qed

theorem generateSpecReport_descending_stable_witness:
  "\<not> is_array_index ''z.cy.js'' \<and> map_of three_specs ''z.cy.js'' = None \<and>
   obj_add ''z.cy.js'' (spec_of [] [mib 5]) three_specs
     = three_specs @ [(''z.cy.js'', spec_of [] [mib 5])] \<and>
   row_maxes (generateSpecReport three_specs) = [5, 3, 1] \<and>
   sorted_wrt (\<lambda>a b. b \<le> a) (row_maxes (generateSpecReport three_specs))"
proof -
  have "\<not> is_array_index ''z.cy.js''"
    by (simp add: is_array_index_def digit_def)
  moreover have "map_of three_specs ''z.cy.js'' = None"
    by (simp add: three_specs_def)
  ultimately show ?thesis
    using generateSpecReport_descending_stable [of three_specs "''z.cy.js''" "spec_of [] [mib 5]"] by auto
qed

text \<open>
  C8. Between its heading and its closing rule the test report has one row for each of
  the first 50 test records in descending order of the \<open>max\<close> figure of
  \<^verbatim>\<open>calculateStats\<close> (records with the same figure in the order of enumeration), that is,
  a row for every record when there are at most 50. A row shows the title and the spec
  of its record and the four figures of its samples, so the \<open>max\<close> column of the report
  descends from top to bottom. A line that tells the number of records minus 50 follows
  the rows exactly when there are more than 50 records.
\<close>

theorem generateTestReport_top_50:
  "\<exists>rows. mset rows = mset (map snd tests_obj) \<and>
          sorted_wrt (\<lambda>a b. test_max b \<le> test_max a) rows \<and>
          (\<forall>m. filter (\<lambda>td. test_max td = m) rows
             = filter (\<lambda>td. test_max td = m) (map snd tests_obj)) \<and>
          generateTestReport tests_obj =
            [TestHeading, Rule, TestColumns, Rule] @
            map (\<lambda>td. TestRow
                   (padEnd 48 (if 40 < length (tr_testTitle td)
                               then take 37 (tr_testTitle td) @ ''...'' else tr_testTitle td))
                   (padEnd 24 (tr_specPath td))
                   (min_mb (calculateStats (Some (tr_samples td))))
                   (avg_mb (calculateStats (Some (tr_samples td))))
                   (max_mb (calculateStats (Some (tr_samples td))))
                   (count_n (calculateStats (Some (tr_samples td)))))
              (take 50 rows) @
            (if 50 < length tests_obj then [MoreTests (length tests_obj - 50)] else []) @
            [Rule] \<and>
          row_maxes (generateTestReport tests_obj) = map test_max (take 50 rows) \<and>
          sorted_wrt (\<lambda>a b. b \<le> a) (row_maxes (generateTestReport tests_obj)) \<and>
          length (row_maxes (generateTestReport tests_obj)) = min 50 (length tests_obj)"
proof -
  let ?rows = "Array_sort test_cmp (map snd tests_obj)"
  let ?out = "generateTestReport tests_obj"
  have perm: "mset ?rows = mset (map snd tests_obj)"
    by (simp add: test_sort)
  have desc: "sorted_wrt (\<lambda>a b. test_max b \<le> test_max a) ?rows"
    unfolding test_sort by (rule sort_key_descending)
  have stable: "\<forall>m. filter (\<lambda>td. test_max td = m) ?rows
      = filter (\<lambda>td. test_max td = m) (map snd tests_obj)"
    unfolding test_sort by (simp add: sort_key_neg_stable)
  have out: "?out = [TestHeading, Rule, TestColumns, Rule] @ map test_row (take 50 ?rows) @
            (if 50 < length tests_obj then [MoreTests (length tests_obj - 50)] else []) @ [Rule]"
    by (simp add: generateTestReport_def Object_values_def)
  have lines: "?out =
            [TestHeading, Rule, TestColumns, Rule] @
            map (\<lambda>td. TestRow
                   (padEnd 48 (if 40 < length (tr_testTitle td)
                               then take 37 (tr_testTitle td) @ ''...'' else tr_testTitle td))
                   (padEnd 24 (tr_specPath td))
                   (min_mb (calculateStats (Some (tr_samples td))))
                   (avg_mb (calculateStats (Some (tr_samples td))))
                   (max_mb (calculateStats (Some (tr_samples td))))
                   (count_n (calculateStats (Some (tr_samples td)))))
              (take 50 ?rows) @
            (if 50 < length tests_obj then [MoreTests (length tests_obj - 50)] else []) @
            [Rule]"
    unfolding out by (simp add: test_row_def Let_def)
  have maxes: "row_maxes ?out = map test_max (take 50 ?rows)"
    unfolding out by (simp add: row_maxes_append row_maxes_test_rows row_maxes_simps)
  have "sorted_wrt (\<lambda>a b. test_max b \<le> test_max a) (take 50 ?rows)"
    using desc by (rule sorted_wrt_take)
  then have emitted: "sorted_wrt (\<lambda>a b. b \<le> a) (row_maxes ?out)"
    by (simp add: maxes sorted_wrt_map)
  have count: "length (row_maxes ?out) = min 50 (length tests_obj)"
    by (simp add: maxes test_sort min.commute)
  show ?thesis
    using perm desc stable lines maxes emitted count by blast
qed

lemma three_tests_report:
  "generateTestReport three_tests =
     [TestHeading, Rule, TestColumns, Rule,
      TestRow (padEnd 48 ''five'') (padEnd 24 ''a.cy.js'') 3 4 5 2,
      TestRow (padEnd 48 ''three'') (padEnd 24 ''b.cy.js'') 3 3 3 1,
      TestRow (padEnd 48 ''one'') (padEnd 24 ''a.cy.js'') 1 1 1 1,
      Rule]"
  by (simp add: generateTestReport_def three_tests_def Object_values_def Array_sort_def
      test_cmp_def test_row_def mib_def heap_def or_else_def truthy_def Math_max_def
      Math_min_def to_mb_def Let_def binary64_numeral binary64_minus)

theorem generateTestReport_top_50_witness:
  "length fifty_one = 51 \<and> length (generateTestReport fifty_one) = 56 \<and>
   length (row_maxes (generateTestReport fifty_one)) = 50 \<and>
   generateTestReport fifty_one ! 54 = MoreTests 1 \<and>
   generateTestReport fifty_one ! 55 = Rule \<and>
   row_maxes (generateTestReport three_tests) = [5, 3, 1] \<and>
   row_names (generateTestReport three_tests) =
     [padEnd 48 ''five'', padEnd 48 ''three'', padEnd 48 ''one'']"
proof -
  have len: "length fifty_one = 51"
    by (simp add: fifty_one_def)
  obtain rows where perm: "mset rows = mset (map snd fifty_one)"
    and out: "generateTestReport fifty_one =
            [TestHeading, Rule, TestColumns, Rule] @
            map (\<lambda>td. TestRow
                   (padEnd 48 (if 40 < length (tr_testTitle td)
                               then take 37 (tr_testTitle td) @ ''...'' else tr_testTitle td))
                   (padEnd 24 (tr_specPath td))
                   (min_mb (calculateStats (Some (tr_samples td))))
                   (avg_mb (calculateStats (Some (tr_samples td))))
                   (max_mb (calculateStats (Some (tr_samples td))))
                   (count_n (calculateStats (Some (tr_samples td)))))
              (take 50 rows) @
            (if 50 < length fifty_one then [MoreTests (length fifty_one - 50)] else []) @
            [Rule]"
    and count: "length (row_maxes (generateTestReport fifty_one)) = min 50 (length fifty_one)"
    using generateTestReport_top_50 [of fifty_one] by blast
  have "length rows = 51"
    using perm len by (metis length_map size_mset)
  then have fifty: "length (take 50 rows) = 50"
    by simp
  define shown where "shown = [TestHeading, Rule, TestColumns, Rule] @
            map (\<lambda>td. TestRow
                   (padEnd 48 (if 40 < length (tr_testTitle td)
                               then take 37 (tr_testTitle td) @ ''...'' else tr_testTitle td))
                   (padEnd 24 (tr_specPath td))
                   (min_mb (calculateStats (Some (tr_samples td))))
                   (avg_mb (calculateStats (Some (tr_samples td))))
                   (max_mb (calculateStats (Some (tr_samples td))))
                   (count_n (calculateStats (Some (tr_samples td)))))
              (take 50 rows)"
  have shown: "length shown = 54"
    using fifty by (simp add: shown_def)
  have out': "generateTestReport fifty_one = shown @ [MoreTests 1, Rule]"
    using out len by (simp add: shown_def)
  have "(shown @ [MoreTests 1, Rule]) ! 54 = MoreTests 1"
    using shown by (simp add: nth_append)
  moreover have "(shown @ [MoreTests 1, Rule]) ! 55 = Rule"
    using shown by (simp add: nth_append)
  moreover have "row_maxes (generateTestReport three_tests) = [5, 3, 1]"
    by (simp add: three_tests_report row_maxes_simps)
  moreover have "row_names (generateTestReport three_tests) =
     [padEnd 48 ''five'', padEnd 48 ''three'', padEnd 48 ''one'']"
    by (simp add: three_tests_report row_names_simps)
  ultimately show ?thesis
    using len shown count by (simp add: out')
qed

subsection \<open>Recording without a batch, and without a snapshot\<close>

text \<open>
  C5, as the code has it. When \<^verbatim>\<open>batchData.batch\<close> is not an array,
  \<^verbatim>\<open>recordMemoryBatch\<close> returns at once: it neither loads nor saves, and the data file
  stays as it is. For the empty array it does not save and the data file stays as it is,
  but an enabled tracker calls \<^verbatim>\<open>loadData\<close> once: the check of \<^verbatim>\<open>Array.isArray\<close> lets
  the empty array pass, and only the save depends on \<^verbatim>\<open>modified\<close>.
\<close>

theorem recordMemoryBatch_no_items:
  "(batch bd = None \<longrightarrow> recordMemoryBatch tr bd w = (Inr (), w)) \<and>
   (batch bd = Some [] \<longrightarrow>
      fst (recordMemoryBatch tr bd w) = Inr () \<and>
      dataFile (snd (recordMemoryBatch tr bd w)) = dataFile w \<and>
      saves (snd (recordMemoryBatch tr bd w)) = saves w \<and>
      loads (snd (recordMemoryBatch tr bd w)) = (if isEnabled tr then Suc (loads w) else loads w))"
  by (cases "dataFile w") (simp_all add: recordMemoryBatch_def loadData_def)

lemma started_world:
  "started =
     \<lparr>dataFile = Some \<lparr>runStartTime = 1700000000000, specs = [], tests = [],
                        config_trackSpecOnly = False, config_debug = False\<rparr>,
      clock = (\<lambda>n. if n < 3 then 1700000000000 else 1700000000001),
      ticks = 1, loads = 0, saves = 1\<rparr>"
  by (simp add: started_def initializeData_def tracking_def fresh_def Date_now_def saveData_def)

theorem recordMemoryBatch_no_items_witness:
  "batch no_batch = None \<and> recordMemoryBatch tracking no_batch started = (Inr (), started) \<and>
   batch (batch_of []) = Some [] \<and>
   dataFile (snd (recordMemoryBatch tracking (batch_of []) started)) = dataFile started \<and>
   saves (snd (recordMemoryBatch tracking (batch_of []) started)) = 1"
  using recordMemoryBatch_no_items [of no_batch tracking started]
    recordMemoryBatch_no_items [of "batch_of []" tracking started]
  by (simp add: no_batch_def batch_of_def started_world)

text \<open>
  With an enabled tracker and an existing data file, the empty batch is one more call
  of \<^verbatim>\<open>loadData\<close>.
\<close>

theorem recordMemoryBatch_empty_batch_loads:
  "batch (batch_of []) = Some [] \<and>
   loads started = 0 \<and>
   loads (snd (recordMemoryBatch tracking (batch_of []) started)) = 1"
  by (simp add: batch_of_def started_world recordMemoryBatch_def loadData_def tracking_def)

text \<open>
  C6. Without a data file that \<^verbatim>\<open>loadData\<close> can read, \<^verbatim>\<open>recordSpecMemory\<close>,
  \<^verbatim>\<open>recordTestMemory\<close> and \<^verbatim>\<open>recordMemoryBatch\<close> return normally, do not save, and leave
  the world without a data file.
\<close>

theorem record_without_snapshot:
  assumes "dataFile w = None"
  shows "fst (recordSpecMemory tr s m w) = Inr () \<and>
         dataFile (snd (recordSpecMemory tr s m w)) = None \<and>
         saves (snd (recordSpecMemory tr s m w)) = saves w \<and>
         fst (recordTestMemory tr s t m w) = Inr () \<and>
         dataFile (snd (recordTestMemory tr s t m w)) = None \<and>
         saves (snd (recordTestMemory tr s t m w)) = saves w \<and>
         fst (recordMemoryBatch tr bd w) = Inr () \<and>
         dataFile (snd (recordMemoryBatch tr bd w)) = None \<and>
         saves (snd (recordMemoryBatch tr bd w)) = saves w"
  using assms
  by (simp add: recordSpecMemory_def recordTestMemory_def recordMemoryBatch_def loadData_def)

theorem record_without_snapshot_witness:
  "dataFile fresh = None \<and>
   fst (recordSpecMemory tracking ''login.cy.js'' at_start fresh) = Inr () \<and>
   dataFile (snd (recordSpecMemory tracking ''login.cy.js'' at_start fresh)) = None \<and>
   fst (recordTestMemory tracking ''login.cy.js'' ''logs in'' at_start fresh) = Inr () \<and>
   dataFile (snd (recordTestMemory tracking ''login.cy.js'' ''logs in'' at_start fresh)) = None \<and>
   fst (recordMemoryBatch tracking (batch_of [one_item]) fresh) = Inr () \<and>
   dataFile (snd (recordMemoryBatch tracking (batch_of [one_item]) fresh)) = None"
  using record_without_snapshot
    [of fresh tracking "''login.cy.js''" at_start "''logs in''" "batch_of [one_item]"]
  by (simp add: fresh_def)

subsection \<open>Reading and changing an object\<close>

lemma proto_no_colon: "k \<in> set proto_names \<Longrightarrow> CHR '':'' \<notin> set k"
  by (auto simp: proto_names_def)

lemma testKey_not_proto: "testKey_of s t \<notin> set proto_names"
  using proto_no_colon [of "testKey_of s t"] by (auto simp: testKey_of_def)

lemma obj_get_Some: "map_of obj k = Some v \<Longrightarrow> obj_get obj k = Own v"
  by (simp add: obj_get_def)

lemma obj_get_None:
  "map_of obj k = None \<Longrightarrow> obj_get obj k = (if k \<in> set proto_names then Inherited else Missing)"
  by (simp add: obj_get_def)

lemma map_of_takeWhile_None: "map_of obj k = None \<Longrightarrow> map_of (takeWhile P obj) k = None"
  by (induction obj) (auto split: if_splits)

lemma map_of_obj_add: "map_of obj k = None \<Longrightarrow> map_of (obj_add k v obj) k = Some v"
  by (simp add: obj_add_def Let_def map_of_takeWhile_None map_add_def split: option.splits)

lemma map_of_obj_modify:
  "map_of (obj_modify k f obj) k' = (if k' = k then map_option f (map_of obj k) else map_of obj k')"
  by (induction obj) (auto simp: obj_modify_def)

lemma earlier_key_only:
  "(\<lambda>(k', _). is_array_index k' \<and> index_value k' < index_value k) \<circ> (\<lambda>(k, v). (k, g v))
      = (\<lambda>(k', _). is_array_index k' \<and> index_value k' < index_value k)"
  by (auto simp: fun_eq_iff)

lemma map_values_obj_add:
  "map (\<lambda>(k, v). (k, g v)) (obj_add k v obj) = obj_add k (g v) (map (\<lambda>(k, v). (k, g v)) obj)"
  by (simp add: obj_add_def Let_def takeWhile_map dropWhile_map earlier_key_only)

lemma map_values_obj_modify:
  assumes "\<And>v. g (f v) = f' (g v)"
  shows "map (\<lambda>(k, v). (k, g v)) (obj_modify k f obj) = obj_modify k f' (map (\<lambda>(k, v). (k, g v)) obj)"
  by (induction obj) (auto simp: obj_modify_def assms)

text \<open>The operations keep the keys of an object pairwise different.\<close>

lemma keys_obj_modify: "map fst (obj_modify k f obj) = map fst obj"
  by (induction obj) (auto simp: obj_modify_def)

lemma distinct_obj_add:
  assumes "map_of obj k = None" and "distinct (map fst obj)"
  shows "distinct (map fst (obj_add k v obj))"
proof -
  have fresh_key: "k \<notin> set (map fst obj)"
    using assms(1) by (simp add: map_of_eq_None_iff)
  have "distinct (map fst (xs @ [(k, v)] @ ys))" if "xs @ ys = obj" for xs ys
    using assms(2) fresh_key unfolding that [symmetric] by auto
  from this [of obj "[]"] this [of "takeWhile P obj" "dropWhile P obj" for P]
  show ?thesis
    by (simp add: obj_add_def Let_def)
qed

subsection \<open>The write under the test key and under the spec\<close>

lemma batch_item_dual_write: "batch_item it d = dual_write None it (memory it) (memory it) d"
  unfolding batch_item_def dual_write_def Let_def ..

lemma copy_sample_truthy: "truthy (timestamp m) \<Longrightarrow> copy_sample m w = (m, w)"
  by (cases m) (auto simp: copy_sample_def truthy_def split: option.splits)

lemma ensure_node_ok:
  assumes "sn \<notin> set proto_names" and "t \<notin> set proto_names"
  shows "\<exists>d'. ensure_node sn t d = Inr d'"
proof (cases "map_of (specs d) sn")
  case None
  then show ?thesis
    using assms by (simp add: ensure_node_def obj_get_def map_of_obj_add)
next
  case (Some sr)
  then show ?thesis
    using assms by (cases "map_of (sp_tests sr) t") (simp_all add: ensure_node_def obj_get_def)
qed

lemma dual_write_ok:
  assumes "specName it \<notin> set proto_names" and "testTitle it \<notin> set proto_names"
  shows "\<exists>d'. dual_write st it s s' d = Inr d'"
proof -
  let ?k = "testKey_of (specName it) (testTitle it)"
  have rest: "\<exists>d'. (case ensure_node (specName it) (testTitle it) x of
           Inl e \<Rightarrow> Inl e
         | Inr data3 \<Rightarrow> Inr (push_node_sample (specName it) (testTitle it) s' data3)) = Inr d'" for x
    using ensure_node_ok [OF assms, of x] by auto
  show ?thesis
  proof (cases "map_of (tests d) ?k")
    case None
    then show ?thesis
      using rest by (simp add: dual_write_def Let_def obj_get_def testKey_not_proto map_of_obj_add)
  next
    case (Some td)
    then show ?thesis
      using rest by (simp add: dual_write_def Let_def obj_get_def)
  qed
qed

lemma recordTestMemory_dual_write:
  assumes "isEnabled tr" and "dataFile w = Some d" and "truthy (timestamp m)"
    and "dual_write (Some (clock w (ticks w))) \<lparr>specName = sn, testTitle = t, memory = m\<rparr> m m d = Inr d'"
  shows "fst (recordTestMemory tr sn t m w) = Inr () \<and>
         dataFile (snd (recordTestMemory tr sn t m w)) = Some d'"
proof (cases "map_of (tests d) (testKey_of sn t)")
  case None
  then show ?thesis
    using assms
    by (simp add: recordTestMemory_def dual_write_def Let_def loadData_def obj_get_def
        testKey_not_proto map_of_obj_add Date_now_def copy_sample_truthy saveData_def
        split: sum.splits)
next
  case (Some td)
  then show ?thesis
    using assms
    by (simp add: recordTestMemory_def dual_write_def Let_def loadData_def obj_get_def
        copy_sample_truthy saveData_def split: sum.splits)
qed

text \<open>A write appends its two samples to the two sequences of its test.\<close>

lemma ensure_node_samples:
  assumes "ensure_node sn t d = Inr d'"
  shows "tests d' = tests d \<and> node_samples d' sn t = Some (so_far (node_samples d sn t))"
proof (cases "map_of (specs d) sn")
  case None
  then show ?thesis
    using assms
    by (auto simp: ensure_node_def obj_get_def map_of_obj_add map_of_obj_modify node_samples_def
        so_far_def split: if_splits)
next
  case (Some sr)
  then show ?thesis
    using assms
    by (cases "map_of (sp_tests sr) t")
      (auto simp: ensure_node_def obj_get_def map_of_obj_add map_of_obj_modify node_samples_def
        so_far_def split: if_splits)
qed

lemma push_node_sample_samples:
  "tests (push_node_sample sn t s d) = tests d \<and>
   node_samples (push_node_sample sn t s d) sn t = map_option (\<lambda>xs. xs @ [s]) (node_samples d sn t)"
  by (cases "map_of (specs d) sn")
     (auto simp: push_node_sample_def node_samples_def map_of_obj_modify option.map_comp comp_def
        split: option.splits)

lemma dual_write_samples:
  assumes "dual_write st it s s' d = Inr d'"
  shows "test_samples d' (specName it) (testTitle it)
           = Some (so_far (test_samples d (specName it) (testTitle it)) @ [s]) \<and>
         node_samples d' (specName it) (testTitle it)
           = Some (so_far (node_samples d (specName it) (testTitle it)) @ [s'])"
proof -
  let ?k = "testKey_of (specName it) (testTitle it)"
  let ?sn = "specName it" and ?t = "testTitle it"
  define d1 where "d1 = (case obj_get (tests d) ?k of
                     Missing \<Rightarrow>
                       d\<lparr>tests := obj_add ?k
                         \<lparr>tr_specPath = ?sn, tr_testTitle = ?t,
                          tr_samples = [], tr_startTime = st\<rparr>
                         (tests d)\<rparr>
                   | _ \<Rightarrow> d)"
  have d1: "specs d1 = specs d \<and> map_option tr_samples (map_of (tests d1) ?k)
             = Some (so_far (test_samples d ?sn ?t))"
    by (cases "map_of (tests d) ?k")
      (simp_all add: d1_def obj_get_def testKey_not_proto map_of_obj_add test_samples_def so_far_def)
  then obtain td where td: "map_of (tests d1) ?k = Some td"
    by auto
  let ?d2 = "push_test_sample ?k s d1"
  have d2: "specs ?d2 = specs d \<and> test_samples ?d2 ?sn ?t = Some (so_far (test_samples d ?sn ?t) @ [s])"
    using d1 td by (simp add: push_test_sample_def test_samples_def map_of_obj_modify)
  have "dual_write st it s s' d =
      (case obj_get (tests d1) ?k of
         Own _ \<Rightarrow>
           (case ensure_node ?sn ?t ?d2 of
              Inl e \<Rightarrow> Inl e
            | Inr data3 \<Rightarrow> Inr (push_node_sample ?sn ?t s' data3))
       | _ \<Rightarrow> Inl TypeError)"
    unfolding dual_write_def Let_def d1_def ..
  then have "(case ensure_node ?sn ?t ?d2 of
              Inl e \<Rightarrow> Inl e
            | Inr data3 \<Rightarrow> Inr (push_node_sample ?sn ?t s' data3)) = Inr d'"
    using assms by (simp add: obj_get_Some [OF td])
  then obtain d3 where d3: "ensure_node ?sn ?t ?d2 = Inr d3"
    and d': "d' = push_node_sample ?sn ?t s' d3"
    by (cases "ensure_node ?sn ?t ?d2") auto
  have same_nodes: "node_samples ?d2 ?sn ?t = node_samples d ?sn ?t"
    using d2 by (simp add: node_samples_def)
  have "tests d3 = tests ?d2 \<and> node_samples d3 ?sn ?t = Some (so_far (node_samples d ?sn ?t))"
    using ensure_node_samples [OF d3] same_nodes by simp
  then show ?thesis
    using d2 push_node_sample_samples [of ?sn ?t s' d3]
    by (simp add: d' test_samples_def)
qed

text \<open>
  The loop of \<^verbatim>\<open>recordMemoryBatch\<close> pushes the same sample twice: two sequences that are
  equal stay equal.
\<close>

lemma batch_item_keeps_equal:
  assumes "batch_item it d = Inr d'"
    and "test_samples d (specName it) (testTitle it) = node_samples d (specName it) (testTitle it)"
  shows "test_samples d' (specName it) (testTitle it) = node_samples d' (specName it) (testTitle it)"
  using dual_write_samples [of None it "memory it" "memory it" d d'] assms
  by (simp add: batch_item_dual_write)

text \<open>So does \<^verbatim>\<open>recordTestMemory\<close> for a sample that has a time stamp.\<close>

lemma recordTestMemory_keeps_equal:
  assumes "isEnabled tr" and "dataFile w = Some d" and "truthy (timestamp m)"
    and "sn \<notin> set proto_names" and "t \<notin> set proto_names"
    and "test_samples d sn t = node_samples d sn t"
  shows "\<exists>d'. dataFile (snd (recordTestMemory tr sn t m w)) = Some d' \<and>
           test_samples d' sn t = Some (so_far (test_samples d sn t) @ [m]) \<and>
           node_samples d' sn t = test_samples d' sn t"
proof -
  let ?it = "\<lparr>specName = sn, testTitle = t, memory = m\<rparr>"
  obtain d' where d': "dual_write (Some (clock w (ticks w))) ?it m m d = Inr d'"
    using dual_write_ok [of ?it "Some (clock w (ticks w))" m m d] assms(4,5) by auto
  have "dataFile (snd (recordTestMemory tr sn t m w)) = Some d'"
    using recordTestMemory_dual_write [OF assms(1-3) d'] by simp
  then show ?thesis
    using dual_write_samples [OF d'] assms(6) by simp
qed

text \<open>
  The key does not tell \<open>a::b\<close> with \<open>c\<close> from \<open>a\<close> with \<open>b::c\<close>: the second test
  finds the record of the first and appends to it, and its sequence under its own spec
  is shorter.
\<close>

lemma testKey_collision:
  "testKey_of ''a::b'' ''c'' = testKey_of ''a'' ''b::c'' \<and>
   map_option (\<lambda>d. test_samples d ''a'' ''b::c'')
     (dataFile (snd (recordMemoryBatch tracking (batch_of colliding) started)))
     = Some (Some [buffered, buffered]) \<and>
   map_option (\<lambda>d. node_samples d ''a'' ''b::c'')
     (dataFile (snd (recordMemoryBatch tracking (batch_of colliding) started)))
     = Some (Some [buffered])"
proof -
  have k: "testKey_of ''a::b'' ''c'' = ''a::b::c''" "testKey_of ''a'' ''b::c'' = ''a::b::c''"
    by (simp_all add: testKey_of_def)
  have i: "\<not> is_array_index ''a::b::c''" "\<not> is_array_index ''a::b''" "\<not> is_array_index ''a''"
    "\<not> is_array_index ''c''" "\<not> is_array_index ''b::c''"
    by (simp_all add: is_array_index_def digit_def)
  show ?thesis
    by (simp add: k)
       (simp add: started_world recordMemoryBatch_def batch_of_def colliding_def batch_item_def
         tracking_def loadData_def obj_get_def proto_names_def obj_add_def k i
         push_test_sample_def obj_modify_def ensure_node_def push_node_sample_def saveData_def
         test_samples_def node_samples_def)
qed

subsection \<open>The two clock reads of \<^verbatim>\<open>recordTestMemory\<close>\<close>

lemma not_index_login: "\<not> is_array_index ''login.cy.js''" "\<not> is_array_index ''logs in''"
  "\<not> is_array_index (testKey_of ''login.cy.js'' ''logs in'')"
  by (simp_all add: is_array_index_def digit_def testKey_of_def)

lemma not_proto_login: "''login.cy.js'' \<notin> set proto_names" "''logs in'' \<notin> set proto_names"
  by (simp_all add: proto_names_def)

lemma recordTestMemory_at_start:
  "dataFile (snd (recordTestMemory tracking ''login.cy.js'' ''logs in'' at_start started)) =
   Some \<lparr>runStartTime = 1700000000000,
     specs =
       [(''login.cy.js'',
         \<lparr>sp_samples = [],
            sp_tests = [(''logs in'', \<lparr>tn_samples = [at_start\<lparr>timestamp := Some 1700000000001\<rparr>]\<rparr>)],
            sp_startTime = None\<rparr>)],
     tests =
       [(testKey_of ''login.cy.js'' ''logs in'',
         \<lparr>tr_specPath = ''login.cy.js'', tr_testTitle = ''logs in'',
            tr_samples = [at_start\<lparr>timestamp := Some 1700000000000\<rparr>],
            tr_startTime = Some 1700000000000\<rparr>)],
     config_trackSpecOnly = False, config_debug = False\<rparr>"
  by (simp add: started_world recordTestMemory_def tracking_def loadData_def obj_get_def
      testKey_not_proto not_proto_login Let_def Date_now_def obj_add_def not_index_login copy_sample_def
      at_start_def truthy_def push_test_sample_def obj_modify_def ensure_node_def
      push_node_sample_def saveData_def)

text \<open>
  C1, at a sample without time stamp, as the support file sends it at the start of a
  test. \<^verbatim>\<open>recordTestMemory\<close> evaluates \<^verbatim>\<open>memoryData.timestamp || Date.now()\<close> once for the
  sample under the test key and once more for the sample under the spec. When the clock
  advances between the two reads, the two sequences of the test differ in the time stamp
  and are not value-equal.
\<close>

theorem recordTestMemory_reads_clock_twice:
  "timestamp at_start = None \<and>
   map_option (\<lambda>d. test_samples d ''login.cy.js'' ''logs in'')
       (dataFile (snd (recordTestMemory tracking ''login.cy.js'' ''logs in'' at_start started)))
     = Some (Some [at_start\<lparr>timestamp := Some 1700000000000\<rparr>]) \<and>
   map_option (\<lambda>d. node_samples d ''login.cy.js'' ''logs in'')
       (dataFile (snd (recordTestMemory tracking ''login.cy.js'' ''logs in'' at_start started)))
     = Some (Some [at_start\<lparr>timestamp := Some 1700000000001\<rparr>])"
  by (simp add: recordTestMemory_at_start test_samples_def node_samples_def) (simp add: at_start_def)

subsection \<open>A batch and the same items one by one\<close>

lemma specs_strip_start [simp]: "specs (strip_start d) = specs d"
  by (simp add: strip_start_def)

lemma tests_strip_start:
  "tests (strip_start d) = map (\<lambda>(k, td). (k, td\<lparr>tr_startTime := None\<rparr>)) (tests d)"
  by (simp add: strip_start_def)

lemma strip_start_specs_update: "strip_start (d\<lparr>specs := x\<rparr>) = (strip_start d)\<lparr>specs := x\<rparr>"
  by (simp add: strip_start_def)

lemma map_of_tests_strip:
  "map_of (tests (strip_start d)) k = map_option (\<lambda>td. td\<lparr>tr_startTime := None\<rparr>) (map_of (tests d) k)"
  by (simp add: tests_strip_start map_of_map)

lemma strip_push_test_sample:
  "strip_start (push_test_sample k s d) = push_test_sample k s (strip_start d)"
  by (simp add: push_test_sample_def strip_start_def
      map_values_obj_modify [where f' = "\<lambda>td. td\<lparr>tr_samples := tr_samples td @ [s]\<rparr>"])

lemma strip_push_node_sample:
  "strip_start (push_node_sample sn t s d) = push_node_sample sn t s (strip_start d)"
  by (simp add: push_node_sample_def strip_start_def)

lemma strip_ensure_node:
  "ensure_node sn t (strip_start d) = map_sum id strip_start (ensure_node sn t d)"
  by (simp add: ensure_node_def Let_def strip_start_specs_update split: lookup.splits)

lemma strip_add_test:
  "strip_start (d\<lparr>tests := obj_add k td (tests d)\<rparr>)
     = (strip_start d)\<lparr>tests := obj_add k (td\<lparr>tr_startTime := None\<rparr>) (tests (strip_start d))\<rparr>"
  by (simp add: strip_start_def map_values_obj_add)

lemma strip_dual_write:
  "map_sum id strip_start (dual_write st it s s' d) = dual_write None it s s' (strip_start d)"
proof -
  let ?k = "testKey_of (specName it) (testTitle it)"
  have rest: "map_sum id strip_start
        (case ensure_node (specName it) (testTitle it) (push_test_sample ?k s x) of
           Inl e \<Rightarrow> Inl e
         | Inr data3 \<Rightarrow> Inr (push_node_sample (specName it) (testTitle it) s' data3))
      = (case ensure_node (specName it) (testTitle it) (push_test_sample ?k s (strip_start x)) of
           Inl e \<Rightarrow> Inl e
         | Inr data3 \<Rightarrow> Inr (push_node_sample (specName it) (testTitle it) s' data3))" for x
    by (cases "ensure_node (specName it) (testTitle it) (push_test_sample ?k s x)")
      (simp_all add: strip_push_test_sample [symmetric] strip_ensure_node strip_push_node_sample)
  show ?thesis
  proof (cases "map_of (tests d) ?k")
    case (Some td)
    then show ?thesis
      using rest [of d]
      by (simp add: dual_write_def Let_def obj_get_def map_of_tests_strip)
  next
    case None
    let ?new = "\<lambda>st. \<lparr>tr_specPath = specName it, tr_testTitle = testTitle it,
                          tr_samples = [], tr_startTime = st\<rparr>"
    let ?d1 = "d\<lparr>tests := obj_add ?k (?new st) (tests d)\<rparr>"
    have s1: "strip_start ?d1 = (strip_start d)\<lparr>tests := obj_add ?k (?new None) (tests (strip_start d))\<rparr>"
      by (simp add: strip_add_test)
    have none': "map_of (tests (strip_start d)) ?k = None"
      using None by (simp add: map_of_tests_strip)
    show ?thesis
      using rest [of ?d1] None none'
      by (simp add: dual_write_def Let_def obj_get_def testKey_not_proto map_of_obj_add s1)
  qed
qed

lemma batch_and_one_by_one:
  assumes "isEnabled tr" and "list_all plain_item its"
    and "dataFile w = Some d1" and "strip_start d1 = strip_start d2"
  shows "\<exists>d1' d2'. batch_forEach its (d2, b) = Inr (d2', b \<or> its \<noteq> []) \<and>
           dataFile (one_by_one tr its w) = Some d1' \<and>
           strip_start d1' = strip_start d2'"
  using assms(2-)
proof (induction its arbitrary: w d1 d2 b)
  case Nil
  then show ?case
    by (simp add: one_by_one_def)
next
  case (Cons it its)
  let ?it = "\<lparr>specName = specName it, testTitle = testTitle it, memory = memory it\<rparr>"
  have it: "?it = it"
    by simp
  have names: "specName it \<notin> set proto_names" "testTitle it \<notin> set proto_names"
    and ts: "truthy (timestamp (memory it))"
    using Cons.prems(1) by (simp_all add: plain_item_def)
  obtain d2a where d2a: "dual_write None it (memory it) (memory it) d2 = Inr d2a"
    using dual_write_ok [OF names] by blast
  obtain d1a where
    d1a: "dual_write (Some (clock w (ticks w))) it (memory it) (memory it) d1 = Inr d1a"
    using dual_write_ok [OF names] by blast
  have "Inr (strip_start d1a) = dual_write None it (memory it) (memory it) (strip_start d1)"
    using strip_dual_write [of "Some (clock w (ticks w))" it "memory it" "memory it" d1]
    by (simp add: d1a)
  also have "\<dots> = Inr (strip_start d2a)"
    using strip_dual_write [of None it "memory it" "memory it" d2]
    by (simp add: d2a Cons.prems(3))
  finally have same: "strip_start d1a = strip_start d2a"
    by simp
  let ?w = "snd (recordTestMemory tr (specName it) (testTitle it) (memory it) w)"
  have saved: "dataFile ?w = Some d1a"
    using recordTestMemory_dual_write [OF assms(1) Cons.prems(2) ts, of "specName it" "testTitle it" d1a]
      d1a by (simp only: it)
  have rest: "list_all plain_item its"
    using Cons.prems(1) by simp
  obtain d1' d2' where "batch_forEach its (d2a, True) = Inr (d2', True \<or> its \<noteq> [])"
    and "dataFile (one_by_one tr its ?w) = Some d1'" and "strip_start d1' = strip_start d2'"
    using Cons.IH [OF rest saved same, of True] by blast
  then show ?case
    by (simp add: batch_item_dual_write d2a one_by_one_def)
qed

text \<open>
  What the batch and the calls one by one have in common. For an enabled tracker, an
  existing snapshot and a non-empty batch whose items have a time stamp and no name of
  \<^verbatim>\<open>Object.prototype\<close>, \<^verbatim>\<open>recordMemoryBatch\<close> returns normally after one \<^verbatim>\<open>loadData\<close> and
  one \<^verbatim>\<open>saveData\<close>; the snapshot it saves is the result of its loop over the items in
  their order, and has the specs, the test records and the samples of the snapshot that
  \<^verbatim>\<open>recordTestMemory\<close>, called for the items one by one, leaves behind. The comparison
  leaves the \<^verbatim>\<open>startTime\<close> of the test records aside.
\<close>

lemma recordMemoryBatch_as_one_by_one:
  assumes "isEnabled tr" and "dataFile w = Some d" and "batch bd = Some its" and "its \<noteq> []"
    and "list_all plain_item its"
  shows "\<exists>d' d''.
           recordMemoryBatch tr bd w =
             (Inr (), w\<lparr>dataFile := Some d', loads := Suc (loads w), saves := Suc (saves w)\<rparr>) \<and>
           batch_forEach its (d, False) = Inr (d', True) \<and>
           dataFile (one_by_one tr its w) = Some d'' \<and>
           strip_start d'' = strip_start d'"
proof -
  obtain d'' d' where each: "batch_forEach its (d, False) = Inr (d', False \<or> its \<noteq> [])"
    and one: "dataFile (one_by_one tr its w) = Some d''"
    and same: "strip_start d'' = strip_start d'"
    using batch_and_one_by_one [OF assms(1,5,2), of d False] by blast
  have "recordMemoryBatch tr bd w =
      (Inr (), w\<lparr>dataFile := Some d', loads := Suc (loads w), saves := Suc (saves w)\<rparr>)"
    using assms(1-4) each by (simp add: recordMemoryBatch_def loadData_def saveData_def)
  then show ?thesis
    using each one same assms(4) by auto
qed

text \<open>
  The calls one by one load the snapshot once for every item. A batch of three items for
  two tests is one load and one save; the samples of a test are in the order of the
  batch, and so are the test records.
\<close>

lemma recordTestMemory_loads:
  "isEnabled tr \<Longrightarrow> loads (snd (recordTestMemory tr sn t m w)) = Suc (loads w)"
  by (auto simp: recordTestMemory_def loadData_def saveData_def Date_now_def copy_sample_def
      Let_def split: option.splits lookup.splits sum.splits prod.splits)

lemma one_by_one_loads:
  "isEnabled tr \<Longrightarrow> loads (one_by_one tr its w) = loads w + length its"
proof (induction its arbitrary: w)
  case Nil
  then show ?case by (simp add: one_by_one_def)
next
  case (Cons it its)
  then show ?case
    using recordTestMemory_loads [of tr "specName it" "testTitle it" "memory it" w]
    by (simp add: one_by_one_def)
qed

lemma three_items_batch:
  "loads (snd (recordMemoryBatch tracking (batch_of three_items) started)) = 1 \<and>
   saves (snd (recordMemoryBatch tracking (batch_of three_items) started)) = 2 \<and>
   loads (one_by_one tracking three_items started) = 3 \<and>
   map_option strip_start (dataFile (snd (recordMemoryBatch tracking (batch_of three_items) started)))
     = map_option strip_start (dataFile (one_by_one tracking three_items started))"
proof -
  have a: "isEnabled tracking"
    by (simp add: tracking_def)
  have b: "dataFile started = Some \<lparr>runStartTime = 1700000000000, specs = [], tests = [],
                        config_trackSpecOnly = False, config_debug = False\<rparr>"
    by (simp add: started_world)
  have c: "batch (batch_of three_items) = Some three_items"
    by (simp add: batch_of_def)
  have d: "list_all plain_item three_items"
    by (simp add: plain_item_def three_items_def stamped_def truthy_def proto_names_def)
  have e: "loads started = 0 \<and> saves started = 1"
    by (simp add: started_world)
  have f: "three_items \<noteq> []"
    by (simp add: three_items_def)
  have g: "loads (one_by_one tracking three_items started) = 3"
    using one_by_one_loads [OF a, of three_items started] e by (simp add: three_items_def)
  show ?thesis
    using recordMemoryBatch_as_one_by_one [OF a b c f d] e g by auto
qed

lemma three_items_order:
  "map_option (\<lambda>d. test_samples d ''login.cy.js'' ''logs in'')
     (dataFile (snd (recordMemoryBatch tracking (batch_of three_items) started)))
     = Some (Some [stamped 1700000001000, stamped 1700000003000]) \<and>
   map_option (\<lambda>d. map fst (tests d))
     (dataFile (snd (recordMemoryBatch tracking (batch_of three_items) started)))
     = Some [testKey_of ''login.cy.js'' ''logs in'', testKey_of ''login.cy.js'' ''logs out'']"
proof -
  have i: "\<not> is_array_index ''login.cy.js''" "\<not> is_array_index ''logs in''"
    "\<not> is_array_index ''logs out''"
    "\<not> is_array_index (testKey_of ''login.cy.js'' ''logs in'')"
    "\<not> is_array_index (testKey_of ''login.cy.js'' ''logs out'')"
    by (simp_all add: is_array_index_def digit_def testKey_of_def)
  have p: "''login.cy.js'' \<notin> set proto_names" "''logs in'' \<notin> set proto_names"
    "''logs out'' \<notin> set proto_names"
    by (simp_all add: proto_names_def)
  have k: "testKey_of ''login.cy.js'' ''logs in'' \<noteq> testKey_of ''login.cy.js'' ''logs out''"
    by (simp add: testKey_of_def)
  show ?thesis
    by (simp add: started_world recordMemoryBatch_def batch_of_def three_items_def batch_item_def
        tracking_def loadData_def obj_get_def testKey_not_proto p Let_def obj_add_def i k
        k [symmetric] push_test_sample_def obj_modify_def ensure_node_def push_node_sample_def
        saveData_def test_samples_def)
qed

lemma recordMemoryBatch_one_item:
  "dataFile (snd (recordMemoryBatch tracking (batch_of [one_item]) started)) =
   Some \<lparr>runStartTime = 1700000000000,
     specs =
       [(''login.cy.js'',
         \<lparr>sp_samples = [],
            sp_tests = [(''logs in'', \<lparr>tn_samples = [buffered]\<rparr>)],
            sp_startTime = None\<rparr>)],
     tests =
       [(testKey_of ''login.cy.js'' ''logs in'',
         \<lparr>tr_specPath = ''login.cy.js'', tr_testTitle = ''logs in'',
            tr_samples = [buffered], tr_startTime = None\<rparr>)],
     config_trackSpecOnly = False, config_debug = False\<rparr>"
  by (simp add: started_world recordMemoryBatch_def batch_of_def one_item_def batch_item_def
      tracking_def loadData_def obj_get_def testKey_not_proto not_proto_login Let_def obj_add_def
      not_index_login push_test_sample_def obj_modify_def ensure_node_def
      push_node_sample_def saveData_def)

lemma recordTestMemory_buffered:
  "dataFile (snd (recordTestMemory tracking ''login.cy.js'' ''logs in'' buffered started)) =
   Some \<lparr>runStartTime = 1700000000000,
     specs =
       [(''login.cy.js'',
         \<lparr>sp_samples = [],
            sp_tests = [(''logs in'', \<lparr>tn_samples = [buffered]\<rparr>)],
            sp_startTime = None\<rparr>)],
     tests =
       [(testKey_of ''login.cy.js'' ''logs in'',
         \<lparr>tr_specPath = ''login.cy.js'', tr_testTitle = ''logs in'',
            tr_samples = [buffered], tr_startTime = Some 1700000000000\<rparr>)],
     config_trackSpecOnly = False, config_debug = False\<rparr>"
proof -
  have "truthy (timestamp buffered)"
    by (simp add: buffered_def truthy_def)
  then show ?thesis
    by (simp add: started_world recordTestMemory_def tracking_def loadData_def obj_get_def
      testKey_not_proto not_proto_login Let_def Date_now_def obj_add_def not_index_login
      copy_sample_truthy push_test_sample_def obj_modify_def ensure_node_def
      push_node_sample_def saveData_def)
qed

text \<open>
  C7, at a batch of one item for a test that has no test record yet, on the snapshot that
  \<^verbatim>\<open>initializeData\<close> has written. \<^verbatim>\<open>recordMemoryBatch\<close> loads once and saves once, and the
  test record that it creates has no \<^verbatim>\<open>startTime\<close>; \<^verbatim>\<open>recordTestMemory\<close> for the same item
  creates the test record with the time of the clock. The two snapshots differ, and
  differ in nothing but this \<^verbatim>\<open>startTime\<close>.
\<close>

theorem recordMemoryBatch_no_startTime:
  "batch (batch_of [one_item]) = Some [one_item] \<and>
   loads (snd (recordMemoryBatch tracking (batch_of [one_item]) started)) = Suc (loads started) \<and>
   saves (snd (recordMemoryBatch tracking (batch_of [one_item]) started)) = Suc (saves started) \<and>
   saved_startTimes (snd (recordMemoryBatch tracking (batch_of [one_item]) started)) = [None] \<and>
   saved_startTimes (snd (recordTestMemory tracking (specName one_item) (testTitle one_item)
                            (memory one_item) started))
     = [Some 1700000000000] \<and>
   dataFile (snd (recordMemoryBatch tracking (batch_of [one_item]) started)) \<noteq>
   dataFile (snd (recordTestMemory tracking (specName one_item) (testTitle one_item)
                    (memory one_item) started)) \<and>
   map_option strip_start (dataFile (snd (recordMemoryBatch tracking (batch_of [one_item]) started)))
     = map_option strip_start
         (dataFile (snd (recordTestMemory tracking (specName one_item) (testTitle one_item)
                           (memory one_item) started)))"
proof -
  have counts: "loads (snd (recordMemoryBatch tracking (batch_of [one_item]) started)) = Suc (loads started)"
    "saves (snd (recordMemoryBatch tracking (batch_of [one_item]) started)) = Suc (saves started)"
    by (simp_all add: started_world recordMemoryBatch_def batch_of_def one_item_def batch_item_def
        tracking_def loadData_def obj_get_def testKey_not_proto not_proto_login Let_def obj_add_def
        not_index_login push_test_sample_def obj_modify_def ensure_node_def
        push_node_sample_def saveData_def)
  have "batch (batch_of [one_item]) = Some [one_item]"
    by (simp add: batch_of_def)
  then show ?thesis
    using counts
    by (simp add: saved_startTimes_def recordMemoryBatch_one_item)
       (simp add: one_item_def recordTestMemory_buffered strip_start_def)
qed

theorem recordMemoryBatch_no_startTime_witness:
  "isEnabled tracking \<and> batch (batch_of [one_item]) = Some [one_item] \<and>
   dataFile started \<noteq> None \<and>
   saved_startTimes (snd (recordMemoryBatch tracking (batch_of [one_item]) started)) \<noteq>
   saved_startTimes (snd (recordTestMemory tracking ''login.cy.js'' ''logs in'' buffered started))"
  using recordMemoryBatch_no_startTime
  by (simp add: tracking_def started_world one_item_def)

text \<open>
  What the two conditions on the items exclude. A title that \<^verbatim>\<open>Object.prototype\<close> answers
  passes the guard \<^verbatim>\<open>!data.specs[specName].tests[testTitle]\<close>, and the \<^verbatim>\<open>push\<close> raises
  before anything is saved. A sample without time stamp is stored as it is by the batch,
  where \<^verbatim>\<open>recordTestMemory\<close> stores the time of the clock.
\<close>

lemma recordMemoryBatch_inherited_title:
  "recordMemoryBatch tracking (batch_of [constructor_item]) started
     = (Inl TypeError, started\<lparr>loads := 1\<rparr>)"
proof -
  have i: "\<not> is_array_index ''model.cy.js''" "\<not> is_array_index (testKey_of ''model.cy.js'' ''constructor'')"
    by (simp_all add: is_array_index_def digit_def testKey_of_def)
  have p: "''model.cy.js'' \<notin> set proto_names" "''constructor'' \<in> set proto_names"
    by (simp_all add: proto_names_def)
  show ?thesis
    by (simp add: started_world recordMemoryBatch_def batch_of_def constructor_item_def
        batch_item_def tracking_def loadData_def obj_get_def testKey_not_proto p Let_def
        obj_add_def i push_test_sample_def obj_modify_def ensure_node_def)
qed

lemma recordMemoryBatch_unstamped:
  "map_option (\<lambda>d. test_samples d ''login.cy.js'' ''logs in'')
     (dataFile (snd (recordMemoryBatch tracking (batch_of [unstamped_item]) started)))
     = Some (Some [at_start]) \<and>
   timestamp at_start = None"
  by (simp add: started_world recordMemoryBatch_def batch_of_def unstamped_item_def
        batch_item_def tracking_def loadData_def obj_get_def testKey_not_proto not_proto_login
        Let_def obj_add_def not_index_login push_test_sample_def obj_modify_def ensure_node_def
        push_node_sample_def saveData_def test_samples_def)
     (simp add: at_start_def)

subsection \<open>The order in which an object enumerates its keys\<close>

lemma z_first_specs:
  "saved_specs z_first =
     [(''z.cy.js'', \<lparr>sp_samples = [buffered], sp_tests = [], sp_startTime = Some 1700000000000\<rparr>)]"
proof -
  have i: "\<not> is_array_index ''z.cy.js''"
    by (simp add: is_array_index_def digit_def)
  have p: "''z.cy.js'' \<notin> set proto_names"
    by (simp add: proto_names_def)
  have t: "truthy (timestamp buffered)"
    by (simp add: buffered_def truthy_def)
  show ?thesis
    by (simp add: saved_specs_def z_first_def started_world recordSpecMemory_def tracking_def
        loadData_def obj_get_def p Date_now_def obj_add_def i copy_sample_truthy [OF t]
        push_spec_sample_def obj_modify_def saveData_def Let_def)
qed

lemma z_then_10_specs:
  "saved_specs z_then_10 =
     [(''10'', \<lparr>sp_samples = [buffered], sp_tests = [], sp_startTime = Some 1700000000000\<rparr>),
      (''z.cy.js'', \<lparr>sp_samples = [buffered], sp_tests = [], sp_startTime = Some 1700000000000\<rparr>)]"
proof -
  have i: "\<not> is_array_index ''z.cy.js''" "is_array_index ''10''" "index_value ''10'' = 10"
    by (simp_all add: is_array_index_def digit_def index_value_def)
  have p: "''z.cy.js'' \<notin> set proto_names" "''10'' \<notin> set proto_names"
    by (simp_all add: proto_names_def)
  have t: "truthy (timestamp buffered)"
    by (simp add: buffered_def truthy_def)
  show ?thesis
    by (simp add: saved_specs_def z_then_10_def z_first_def started_world recordSpecMemory_def
        tracking_def loadData_def obj_get_def p Date_now_def obj_add_def i
        copy_sample_truthy [OF t] push_spec_sample_def obj_modify_def saveData_def Let_def)
qed

lemma ten_mib_max:
  "agg_max (k, \<lparr>sp_samples = [buffered], sp_tests = [], sp_startTime = st\<rparr>) = 10"
  by (simp add: agg_max_def aggregateSpecStats_def Object_values_def buffered_def or_else_def
      truthy_def Math_max_def Math_min_def to_mb_def binary64_numeral)

text \<open>
  The spec \<open>z.cy.js\<close> is recorded first and the spec \<open>10\<close> after it, both with a maximum
  of 10 MiB. The name \<open>10\<close> is an array index, the object enumerates it first, and the
  report lists \<open>10\<close> above \<open>z.cy.js\<close>: the two specs with the same maximum are not in the
  order in which their keys were inserted.
\<close>

theorem generateSpecReport_index_key_first:
  "map fst (saved_specs z_first) = [''z.cy.js''] \<and>
   map fst (saved_specs z_then_10) = [''10'', ''z.cy.js''] \<and>
   row_names (generateSpecReport (saved_specs z_then_10))
     = [padEnd 48 ''10'', padEnd 48 ''z.cy.js''] \<and>
   row_maxes (generateSpecReport (saved_specs z_then_10)) = [10, 10]"
proof -
  let ?specs = "[(''10'', \<lparr>sp_samples = [buffered], sp_tests = [], sp_startTime = Some 1700000000000\<rparr>),
           (''z.cy.js'', \<lparr>sp_samples = [buffered], sp_tests = [], sp_startTime = Some 1700000000000\<rparr>)]"
  have sorted_rows: "Array_sort spec_cmp ?specs = ?specs"
    by (simp add: Array_sort_def spec_cmp_def ten_mib_max [unfolded agg_max_def, simplified])
  have "row_names (generateSpecReport ?specs) = [padEnd 48 ''10'', padEnd 48 ''z.cy.js'']"
    by (simp add: generateSpecReport_names sorted_rows)
  moreover have "row_maxes (generateSpecReport ?specs) = [10, 10]"
    by (simp add: generateSpecReport_maxes sorted_rows ten_mib_max)
  ultimately show ?thesis
    by (simp add: z_first_specs z_then_10_specs)
qed

end
